theory Spec2Isabelle
  imports Complex_Main "HOL-Library.Word" "HOL-Library.AList"
begin

unbundle bit_operations_syntax

section \<open>Python values used by scan.py\<close>

text \<open>
  A \<open>bytes\<close> object is a list of 8-bit words. Python integers are unbounded: counts,
  offsets and the results of \<open>struct.unpack\<close> are natural numbers, signal strengths and
  channels are integers. An exception raised by the source is a value of \<open>error\<close>.
\<close>

type_synonym byte = "8 word"

datatype error = StructError | IndexError | KeyError | AttributeError

text \<open>The slice \<open>xs[i:j]\<close> for \<open>0 \<le> i \<le> j\<close>: it never raises and is short when \<open>xs\<close> is.\<close>

definition py_slice :: "'a list \<Rightarrow> nat \<Rightarrow> nat \<Rightarrow> 'a list" where
  "py_slice xs i j = take (j - i) (drop i xs)"

text \<open>\<open>xs[i]\<close> for \<open>0 \<le> i\<close>: IndexError out of range.\<close>

definition py_index :: "'a list \<Rightarrow> nat \<Rightarrow> error + 'a" where
  "py_index xs i = (if i < length xs then Inr (xs ! i) else Inl IndexError)"

text \<open>
  \<open>struct.unpack("<H", bs)[0]\<close>: the little-endian unsigned 16-bit value of exactly two
  bytes; \<open>struct.error\<close> on any other length.
\<close>

fun unpack_H :: "byte list \<Rightarrow> error + nat" where
  "unpack_H [b0, b1] = Inr (unat b0 + 256 * unat b1)"
| "unpack_H bs = Inl StructError"

text \<open>\<open>d.get(k, default)\<close> on a dictionary literal.\<close>

definition dict_get :: "('k \<times> 'v) list \<Rightarrow> 'k \<Rightarrow> 'v \<Rightarrow> 'v" where
  "dict_get d k dflt = (case map_of d k of Some v \<Rightarrow> v | None \<Rightarrow> dflt)"

section \<open>parse\_rsn\<close>

text \<open>
  The function returns either the empty dictionary \<open>{}\<close> or the dictionary literal with
  the five keys enc, cipher, auth, pmf\_capable and pmf\_required.
\<close>

datatype rsn_info =
  RsnEmpty
  | RsnInfo (rsn_enc: string) (rsn_cipher: string) (rsn_auth: string)
      (pmf_capable: bool) (pmf_required: bool)

definition cipher_map :: "(nat \<times> string) list" where
  "cipher_map = [(1, ''WEP-40''), (2, ''TKIP''), (4, ''CCMP''), (5, ''WEP-104'')]"

definition akm_map :: "(nat \<times> string) list" where
  "akm_map = [(1, ''802.1X''), (2, ''PSK'')]"

text \<open>
  The optional capabilities field: read only when two more bytes are there, so this
  unpack never raises; \<open>None\<close> is Python's \<open>None\<close>.
\<close>

definition read_capabilities :: "byte list \<Rightarrow> nat \<Rightarrow> error + nat option" where
  "read_capabilities rsn_ie expected_length_without_cap =
     (if length rsn_ie \<ge> expected_length_without_cap + 2
      then (case unpack_H (py_slice rsn_ie expected_length_without_cap
                                    (expected_length_without_cap + 2)) of
              Inl e \<Rightarrow> Inl e
            | Inr v \<Rightarrow> Inr (Some v))
      else Inr None)"

text \<open>
  The body of the \<open>try\<close> block, every raise a branch. The slice group\_cipher of bytes
  2 to 6 is taken and not used; a slice does not raise.
\<close>

definition parse_rsn_try :: "byte list \<Rightarrow> error + rsn_info" where
  "parse_rsn_try rsn_ie =
     (case unpack_H (py_slice rsn_ie 0 2) of
        Inl e \<Rightarrow> Inl e
      | Inr version \<Rightarrow>
        if version \<noteq> 1 then Inr RsnEmpty
        else
          (case unpack_H (py_slice rsn_ie 6 8) of
             Inl e \<Rightarrow> Inl e
           | Inr pairwise_count \<Rightarrow>
             let pairwise_list_length = pairwise_count * 4;
                 pairwise_cipher = py_slice rsn_ie 8 12;
                 akm_count_offset = 8 + pairwise_list_length
             in
               (case unpack_H (py_slice rsn_ie akm_count_offset (akm_count_offset + 2)) of
                  Inl e \<Rightarrow> Inl e
                | Inr akm_count \<Rightarrow>
                  let akm_list_length = akm_count * 4;
                      akm_suite = py_slice rsn_ie (akm_count_offset + 2) (akm_count_offset + 6);
                      expected_length_without_cap = akm_count_offset + 2 + akm_list_length
                  in
                    (case read_capabilities rsn_ie expected_length_without_cap of
                       Inl e \<Rightarrow> Inl e
                     | Inr rsn_capabilities \<Rightarrow>
                       let pmf_capable =
                             (case rsn_capabilities of
                                None \<Rightarrow> False | Some c \<Rightarrow> c AND 0x0040 \<noteq> 0);
                           pmf_required =
                             (case rsn_capabilities of
                                None \<Rightarrow> False | Some c \<Rightarrow> c AND 0x0080 \<noteq> 0)
                       in
                         (case py_index pairwise_cipher 3 of
                            Inl e \<Rightarrow> Inl e
                          | Inr pc \<Rightarrow>
                            (case py_index akm_suite 3 of
                               Inl e \<Rightarrow> Inl e
                             | Inr ak \<Rightarrow>
                               Inr (RsnInfo ''WPA2''
                                      (dict_get cipher_map (unat pc) ''Unknown'')
                                      (dict_get akm_map (unat ak) ''Unknown'')
                                      pmf_capable pmf_required)))))))"

text \<open>\<open>except Exception: return {}\<close>.\<close>

definition parse_rsn :: "byte list \<Rightarrow> rsn_info" where
  "parse_rsn rsn_ie = (case parse_rsn_try rsn_ie of Inl e \<Rightarrow> RsnEmpty | Inr d \<Rightarrow> d)"

text \<open>
  Lines 126 to 147 of packet\_handler: the variables encryption, cipher, auth and pmf\_str
  from the RSN element found in the beacon (\<open>None\<close> when there is none). An empty
  \<open>bytes\<close> object and an empty dictionary are falsy.
\<close>

definition rsn_security :: "byte list option \<Rightarrow> string \<times> string \<times> string \<times> string" where
  "rsn_security rsn_ie =
     (case rsn_ie of
        None \<Rightarrow> (''OPN'', '''', '''', ''No'')
      | Some ie \<Rightarrow>
        if ie \<noteq> [] then
          (case parse_rsn ie of
             RsnInfo e c a cap req \<Rightarrow>
               (e, c, a, if req then ''Required'' else if cap then ''Capable'' else ''No'')
           | RsnEmpty \<Rightarrow> (''WPA2'', ''CCMP'', ''PSK'', ''No''))
        else (''OPN'', '''', '''', ''No''))"

section \<open>Frames\<close>

text \<open>
  A sniffed frame as packet\_handler reads it through scapy: whether it has the layers
  Dot11Beacon and Dot11, the type and the addresses of the Dot11 header, the text
  \<open>pkt[Dot11Elt].info.decode(errors="ignore").strip()\<close> (the variable raw\_ssid), the
  radiotap signal (\<open>None\<close> without the attribute), and the chain of information
  elements as pairs of ID and info. On a beacon without any element \<open>pkt[Dot11Elt]\<close>
  raises IndexError at line 87. Capture and dissection are scapy's work and are not
  modelled.
\<close>

record packet =
  has_Dot11Beacon :: bool
  has_Dot11 :: bool
  dot11_type :: nat
  addr2 :: string
  addr3 :: string
  raw_ssid :: string
  dBm_AntSignal :: "int option"
  elts :: "(nat \<times> byte list) list"

text \<open>
  The \<open>while elt\<close> loop over the elements, on the variables supported\_rates,
  extended\_rates, channel and rsn\_ie. \<open>elt.info[0]\<close> raises IndexError on an empty
  DS Parameter Set.
\<close>

type_synonym ie_vars = "nat list \<times> nat list \<times> int option \<times> byte list option"

fun scan_elts :: "(nat \<times> byte list) list \<Rightarrow> ie_vars \<Rightarrow> error + ie_vars" where
  "scan_elts [] vars = Inr vars"
| "scan_elts ((ID, info) # rest) (supported_rates, extended_rates, chan, rsn_ie) =
     (if ID = 0 then scan_elts rest (supported_rates, extended_rates, chan, rsn_ie)
      else if ID = 1 then
        scan_elts rest (supported_rates @ map unat info, extended_rates, chan, rsn_ie)
      else if ID = 50 then
        scan_elts rest (supported_rates, extended_rates @ map unat info, chan, rsn_ie)
      else if ID = 3 then
        (case py_index info 0 of
           Inl e \<Rightarrow> Inl e
         | Inr c \<Rightarrow> scan_elts rest (supported_rates, extended_rates, Some (uint c), rsn_ie))
      else if ID = 48 then scan_elts rest (supported_rates, extended_rates, chan, Some info)
      else scan_elts rest (supported_rates, extended_rates, chan, rsn_ie))"

text \<open>
  The maximum bit rate: \<open>max\<close> of \<open>rate * 0.5\<close>, or the string "N/A". A rate is a byte, so
  \<open>rate * 0.5\<close> is exact in floating point and a rational number here.
\<close>

datatype bitrate = N_A | Mbps rat

definition max_bit_rate :: "nat list \<Rightarrow> bitrate" where
  "max_bit_rate all_rates =
     (if all_rates \<noteq> [] then
        (let rates_mbps = map (\<lambda>rate. of_nat rate * (1 / 2)) all_rates
         in Mbps (foldl max (hd rates_mbps) (tl rates_mbps)))
      else N_A)"

section \<open>The registry ap\_data and the list alerts\<close>

text \<open>
  An entry of ap\_data is a dictionary with eleven fixed keys. The values under pwr and
  channel are list objects, which the code appends to in place and which
  \<open>dict.copy()\<close> does not duplicate: they are references into a store of lists. An alert
  is the shallow copy of an entry with the extra key alert\_type.
\<close>

type_synonym ref = nat

record ap_entry =
  essid :: string
  bssid :: string
  pwr :: ref
  beacons :: int
  data :: int
  channel :: ref
  mb :: bitrate
  enc :: string
  cipher :: string
  auth :: string
  pmf :: string

record alert =
  snap :: ap_entry
  alert_type :: string

text \<open>
  The module's globals. ap\_data keeps insertion order like a Python dict: an association
  list whose keys are looked up with \<open>map_of\<close> and stored with \<open>AList.update\<close>.
\<close>

record state =
  ap_data :: "(string \<times> ap_entry) list"
  alerts :: "alert list"
  store :: "ref \<Rightarrow> int list"
  next_ref :: ref

definition init_state :: state where
  "init_state = \<lparr>ap_data = [], alerts = [], store = (\<lambda>r. []), next_ref = 0\<rparr>"

text \<open>A list display \<open>[x]\<close> or \<open>[]\<close> creates a new list object.\<close>

definition new_list :: "int list \<Rightarrow> state \<Rightarrow> ref \<times> state" where
  "new_list xs st =
     (next_ref st, st\<lparr>store := (store st)(next_ref st := xs), next_ref := next_ref st + 1\<rparr>)"

text \<open>\<open>l.append(x)\<close> on the list object at \<open>r\<close>.\<close>

definition list_append :: "ref \<Rightarrow> int \<Rightarrow> state \<Rightarrow> state" where
  "list_append r x st = st\<lparr>store := (store st)(r := store st r @ [x])\<rparr>"

text \<open>\<open>[v] if v is not None else []\<close>.\<close>

definition opt_list :: "int option \<Rightarrow> int list" where
  "opt_list v = (case v of Some x \<Rightarrow> [x] | None \<Rightarrow> [])"

text \<open>\<open>if v is not None and v not in l: l.append(v)\<close>.\<close>

definition append_new :: "ref \<Rightarrow> int option \<Rightarrow> state \<Rightarrow> state" where
  "append_new r v st =
     (case v of
        Some x \<Rightarrow> if x \<notin> set (store st r) then list_append r x st else st
      | None \<Rightarrow> st)"

text \<open>Lines 149 to 169: the entry is created on the first beacon, counted afterwards.\<close>

definition update_ap_data ::
  "string \<Rightarrow> string \<Rightarrow> int option \<Rightarrow> int option \<Rightarrow> bitrate \<Rightarrow>
   string \<times> string \<times> string \<times> string \<Rightarrow> state \<Rightarrow> state" where
  "update_ap_data b display_essid signal_strength chan mbv sec st =
     (case map_of (ap_data st) b of
        None \<Rightarrow>
          (case sec of (encryption, ciph, au, pmf_str) \<Rightarrow>
             (case new_list (opt_list signal_strength) st of (p, st1) \<Rightarrow>
                (case new_list (opt_list chan) st1 of (c, st2) \<Rightarrow>
                   st2\<lparr>ap_data := AList.update b
                         \<lparr>essid = display_essid, bssid = b, pwr = p, beacons = 1, data = 0,
                          channel = c, mb = mbv, enc = encryption, cipher = ciph, auth = au,
                          pmf = pmf_str\<rparr> (ap_data st2)\<rparr>)))
      | Some r \<Rightarrow>
          append_new (channel r) chan
            (append_new (pwr r) signal_strength
               (st\<lparr>ap_data := AList.update b (r\<lparr>beacons := beacons r + 1\<rparr>) (ap_data st)\<rparr>)))"

section \<open>Whitelist and alerts\<close>

text \<open>\<open>s.split(sep)\<close> for a one-character separator.\<close>

fun split_sep :: "char \<Rightarrow> string \<Rightarrow> string list" where
  "split_sep sep [] = [[]]"
| "split_sep sep (c # cs) =
     (if c = sep then [] # split_sep sep cs
      else (case split_sep sep cs of
              w # ws \<Rightarrow> (c # w) # ws
            | [] \<Rightarrow> [[c]]))"

text \<open>
  The loop over the whitelist that sets the variable whitelisted. The whitelist is a set of
  strings, given here in the order the loop visits it; unpacking the split into two names
  raises ValueError unless there are exactly two parts, and the entry is skipped.
\<close>

fun whitelisted :: "string list \<Rightarrow> string \<Rightarrow> string \<Rightarrow> bool" where
  "whitelisted [] ssid b = False"
| "whitelisted (entry # rest) ssid b =
     (case split_sep CHR '','' entry of
        [entry_essid, entry_bssid] \<Rightarrow>
          if ssid = entry_essid \<and> b = entry_bssid then True else whitelisted rest ssid b
      | _ \<Rightarrow> whitelisted rest ssid b)"

text \<open>\<open>any(alert.get('bssid') == bssid for alert in alerts)\<close>.\<close>

definition has_alert :: "alert list \<Rightarrow> string \<Rightarrow> bool" where
  "has_alert als b = (\<exists>a \<in> set als. bssid (snap a) = b)"

definition add_alert :: "alert list \<Rightarrow> string \<Rightarrow> ap_entry \<Rightarrow> string \<Rightarrow> alert list" where
  "add_alert als b cur ty =
     (if \<not> has_alert als b then als @ [\<lparr>snap = cur, alert_type = ty\<rparr>] else als)"

text \<open>The loop over \<open>ap_data.items()\<close> of lines 187 to 192; \<open>cur\<close> is \<open>ap_data[bssid]\<close>.\<close>

fun evil_twin_scan ::
  "(string \<times> ap_entry) list \<Rightarrow> string \<Rightarrow> string \<Rightarrow> ap_entry \<Rightarrow> alert list \<Rightarrow> alert list" where
  "evil_twin_scan [] display_essid b cur als = als"
| "evil_twin_scan ((known_bssid, known_data) # rest) display_essid b cur als =
     (if essid known_data = display_essid \<and> known_bssid \<noteq> b
      then evil_twin_scan rest display_essid b cur (add_alert als b cur ''Evil Twin Detected'')
      else evil_twin_scan rest display_essid b cur als)"

text \<open>
  Lines 171 to 200. \<open>ap_data[bssid]\<close> is the entry that update\_ap\_data has just stored, so
  the KeyError branch is never taken from packet\_handler.
\<close>

definition check_alerts :: "string list \<Rightarrow> string \<Rightarrow> string \<Rightarrow> state \<Rightarrow> error + state" where
  "check_alerts whitelist ssid b st =
     (if \<not> whitelisted whitelist ssid b then
        (case map_of (ap_data st) b of
           None \<Rightarrow> Inl KeyError
         | Some cur \<Rightarrow>
             let als1 = (if ssid \<noteq> ''<Hidden>''
                         then evil_twin_scan (ap_data st) ssid b cur (alerts st)
                         else alerts st);
                 als2 = add_alert als1 b cur ''Not Whitelisted''
             in Inr (st\<lparr>alerts := als2\<rparr>))
      else Inr st)"

section \<open>packet\_handler\<close>

text \<open>
  The callback run on every sniffed frame. The parameters verbose and live\_alerts\_only
  only select what is printed and are left out, with the printing. When the loop over the
  elements has found no DS Parameter Set, line 116 reads \<open>pkt[Dot11Elt].channel\<close>; an
  element has no such field and the read raises AttributeError. A raise leaves the
  handler before any global is written.
\<close>

definition packet_handler :: "packet \<Rightarrow> string list \<Rightarrow> state \<Rightarrow> error + state" where
  "packet_handler pkt whitelist st =
     (if has_Dot11Beacon pkt then
        (if elts pkt = [] then Inl IndexError
         else
           (let b = addr2 pkt;
                ssid = (if raw_ssid pkt \<noteq> [] then raw_ssid pkt else ''<Hidden>'');
                display_essid = ssid;
                signal_strength = dBm_AntSignal pkt
            in
              (case scan_elts (elts pkt) ([], [], None, None) of
                 Inl e \<Rightarrow> Inl e
               | Inr (supported_rates, extended_rates, chan0, rsn_ie) \<Rightarrow>
                   (case chan0 of
                      None \<Rightarrow> Inl AttributeError
                    | Some c \<Rightarrow>
                        let chan = Some c;
                            mbv = max_bit_rate (supported_rates @ extended_rates);
                            sec = rsn_security rsn_ie
                        in check_alerts whitelist ssid b
                             (update_ap_data b display_essid signal_strength chan mbv sec st)))))
      else if has_Dot11 pkt \<and> dot11_type pkt = 2 then
        (let bssid_data = addr3 pkt
         in (case map_of (ap_data st) bssid_data of
               Some r \<Rightarrow>
                 Inr (st\<lparr>ap_data := AList.update bssid_data (r\<lparr>data := data r + 1\<rparr>) (ap_data st)\<rparr>)
             | None \<Rightarrow> Inr st))
      else Inr st)"

text \<open>
  \<open>sniff\<close> calls the handler on each frame in order with the one whitelist of the run; an
  exception leaves the loop.
\<close>

fun process_frames :: "string list \<Rightarrow> packet list \<Rightarrow> state \<Rightarrow> error + state" where
  "process_frames whitelist [] st = Inr st"
| "process_frames whitelist (pkt # pkts) st =
     (case packet_handler pkt whitelist st of
        Inl e \<Rightarrow> Inl e
      | Inr st' \<Rightarrow> process_frames whitelist pkts st')"

section \<open>What the tables and the JSON files show\<close>


text \<open>
  The content of a dictionary as \<open>json.dump\<close> and the tables read it: the scalar values
  and the current content of the two list objects.
\<close>

record ap_fields =
  f_essid :: string
  f_bssid :: string
  f_pwr :: "int list"
  f_beacons :: int
  f_data :: int
  f_channel :: "int list"
  f_mb :: bitrate
  f_enc :: string
  f_cipher :: string
  f_auth :: string
  f_pmf :: string

definition read_entry :: "state \<Rightarrow> ap_entry \<Rightarrow> ap_fields" where
  "read_entry st r =
     \<lparr>f_essid = essid r, f_bssid = bssid r, f_pwr = store st (pwr r), f_beacons = beacons r,
      f_data = data r, f_channel = store st (channel r), f_mb = mb r, f_enc = enc r,
      f_cipher = cipher r, f_auth = auth r, f_pmf = pmf r\<rparr>"

text \<open>save\_alert\_data: each alert's fields and its alert\_type, in the order of the list.\<close>

definition save_alert_data :: "state \<Rightarrow> (ap_fields \<times> string) list" where
  "save_alert_data st = map (\<lambda>a. (read_entry st (snap a), alert_type a)) (alerts st)"

text \<open>The BSSID and the type of each alert.\<close>

definition alert_log :: "state \<Rightarrow> (string \<times> string) list" where
  "alert_log st = map (\<lambda>a. (bssid (snap a), alert_type a)) (alerts st)"

section \<open>Helpers for stating the properties\<close>

text \<open>The little-endian 16-bit value at offset \<open>i\<close> of an RSN element.\<close>

definition le16 :: "byte list \<Rightarrow> nat \<Rightarrow> nat" where
  "le16 bs i = unat (bs ! i) + 256 * unat (bs ! (i + 1))"

text \<open>The pairwise count P, the offset of the AKM count and the offset of the capabilities.\<close>

definition rsn_pairwise_count :: "byte list \<Rightarrow> nat" where
  "rsn_pairwise_count bs = le16 bs 6"

definition rsn_akm_offset :: "byte list \<Rightarrow> nat" where
  "rsn_akm_offset bs = 8 + 4 * rsn_pairwise_count bs"

definition rsn_cap_offset :: "byte list \<Rightarrow> nat" where
  "rsn_cap_offset bs = rsn_akm_offset bs + 2 + 4 * le16 bs (rsn_akm_offset bs)"

text \<open>
  An element is truncated when one of the reads that the decoder needs runs out of bytes:
  the version, the group cipher, the pairwise count, the first pairwise suite, the AKM
  count or the first AKM suite. The capabilities are optional and not among them.
\<close>

definition rsn_truncated :: "byte list \<Rightarrow> bool" where
  "rsn_truncated bs \<longleftrightarrow>
     length bs < 2 \<or> length bs < 6 \<or> length bs < 8 \<or> length bs < 12 \<or>
     length bs < rsn_akm_offset bs + 2 \<or> length bs < rsn_akm_offset bs + 6"

text \<open>The RSN element that the loop over the elements leaves in rsn\_ie: the last with ID 48.\<close>

definition beacon_rsn_ie :: "packet \<Rightarrow> byte list option" where
  "beacon_rsn_ie pkt =
     (case filter (\<lambda>e. fst e = 48) (elts pkt) of [] \<Rightarrow> None | es \<Rightarrow> Some (snd (last es)))"

text \<open>
  The channel that the loop over the elements leaves: the first byte of the last DS
  Parameter Set, \<open>None\<close> without one.
\<close>

definition beacon_channel :: "packet \<Rightarrow> int option" where
  "beacon_channel pkt =
     (case filter (\<lambda>e. fst e = 3) (elts pkt) of
        [] \<Rightarrow> None
      | es \<Rightarrow> Some (uint (hd (snd (last es)))))"

text \<open>The essid that the handler works with: the sentinel for an empty name.\<close>

definition beacon_ssid :: "packet \<Rightarrow> string" where
  "beacon_ssid pkt = (if raw_ssid pkt \<noteq> [] then raw_ssid pkt else ''<Hidden>'')"

text \<open>
  A beacon on which lines 86 to 116 raise nothing: it has a DS Parameter Set, so that it
  has an element and line 116 has a channel, and no DS Parameter Set is empty.
\<close>

definition beacon_ok :: "packet \<Rightarrow> bool" where
  "beacon_ok pkt \<longleftrightarrow>
     has_Dot11Beacon pkt \<and> (\<exists>e \<in> set (elts pkt). fst e = 3) \<and>
     (\<forall>e \<in> set (elts pkt). fst e = 3 \<longrightarrow> snd e \<noteq> [])"

text \<open>Another BSSID of the registry carries the essid: the condition of the evil-twin scan.\<close>

definition twin_known :: "state \<Rightarrow> string \<Rightarrow> string \<Rightarrow> bool" where
  "twin_known st ssid b \<longleftrightarrow> (\<exists>kd \<in> set (ap_data st). essid (snd kd) = ssid \<and> fst kd \<noteq> b)"

text \<open>
  What holds in every state the handler reaches from the initial one: the keys of ap\_data
  are distinct and each entry names its own key, every entry has its own two list objects,
  all allocated, and no BSSID has two alerts.
\<close>

definition entry_refs :: "(string \<times> ap_entry) list \<Rightarrow> ref list" where
  "entry_refs kds = concat (map (\<lambda>kd. [pwr (snd kd), channel (snd kd)]) kds)"

definition wf_state :: "state \<Rightarrow> bool" where
  "wf_state st \<longleftrightarrow>
     distinct (map fst (ap_data st)) \<and>
     (\<forall>kd \<in> set (ap_data st). bssid (snd kd) = fst kd) \<and>
     distinct (entry_refs (ap_data st)) \<and>
     (\<forall>r \<in> set (entry_refs (ap_data st)). r < next_ref st) \<and>
     distinct (map (\<lambda>a. bssid (snap a)) (alerts st))"

text \<open>An RSN element with one CCMP pairwise suite, one PSK suite and PMF required.\<close>

definition rsn_example :: "byte list" where
  "rsn_example = [1, 0, 0, 15, 172, 4, 1, 0, 0, 15, 172, 4, 1, 0, 0, 15, 172, 2, 0x80, 0]"

text \<open>\<open>xs\<close> with \<open>v\<close> appended unless it is absent or already there.\<close>

definition add_new :: "int list \<Rightarrow> int option \<Rightarrow> int list" where
  "add_new xs v = (case v of Some x \<Rightarrow> if x \<in> set xs then xs else xs @ [x] | None \<Rightarrow> xs)"

text \<open>
  Example frames: a beacon of BSSID \<open>b\<close> with the name \<open>s\<close>, a signal and a DS Parameter
  Set, and a data frame of the BSS \<open>b\<close>.
\<close>

definition beacon :: "string \<Rightarrow> string \<Rightarrow> int \<Rightarrow> byte \<Rightarrow> packet" where
  "beacon b s sig c =
     \<lparr>has_Dot11Beacon = True, has_Dot11 = True, dot11_type = 0, addr2 = b, addr3 = b,
      raw_ssid = s, dBm_AntSignal = Some sig, elts = [(0, []), (3, [c])]\<rparr>"

definition data_frame :: "string \<Rightarrow> packet" where
  "data_frame b =
     \<lparr>has_Dot11Beacon = False, has_Dot11 = True, dot11_type = 2, addr2 = b, addr3 = b,
      raw_ssid = [], dBm_AntSignal = None, elts = []\<rparr>"

text \<open>
  The state after the first beacon of A (name Net, signal -45, channel 1) under an empty
  whitelist, and under a whitelist that has A.
\<close>

definition entry_A :: ap_entry where
  "entry_A = \<lparr>essid = ''Net'', bssid = ''A'', pwr = 0, beacons = 1, data = 0, channel = 1,
               mb = N_A, enc = ''OPN'', cipher = [], auth = [], pmf = ''No''\<rparr>"

definition state_A :: state where
  "state_A = \<lparr>ap_data = [(''A'', entry_A)],
               alerts = [\<lparr>snap = entry_A, alert_type = ''Not Whitelisted''\<rparr>],
               store = (\<lambda>r. [])(0 := [- 45], 1 := [1]), next_ref = 2\<rparr>"


text \<open>A beacon that also carries an RSN element.\<close>

definition beacon_rsn :: "string \<Rightarrow> string \<Rightarrow> int \<Rightarrow> byte \<Rightarrow> byte list \<Rightarrow> packet" where
  "beacon_rsn b s sig c ie =
     \<lparr>has_Dot11Beacon = True, has_Dot11 = True, dot11_type = 0, addr2 = b, addr3 = b,
      raw_ssid = s, dBm_AntSignal = Some sig, elts = [(0, []), (3, [c]), (48, ie)]\<rparr>"

text \<open>The security fields of every entry of the registry, in the order of the dict.\<close>

definition security_log :: "state \<Rightarrow> (string \<times> string \<times> string \<times> string \<times> string) list" where
  "security_log st =
     map (\<lambda>kd. (fst kd, enc (snd kd), cipher (snd kd), auth (snd kd), pmf (snd kd))) (ap_data st)"

text \<open>The alerts after a run from the initial state, or the exception that ended it.\<close>

definition run_alert_log :: "string list \<Rightarrow> packet list \<Rightarrow> error + (string \<times> string) list" where
  "run_alert_log wl pkts =
     (case process_frames wl pkts init_state of Inl e \<Rightarrow> Inl e | Inr st \<Rightarrow> Inr (alert_log st))"

section \<open>Lemmas: the decoder\<close>

lemma unpack_H_slice:
  "j = i + 2 \<Longrightarrow> unpack_H (py_slice bs i j) =
     (if i + 2 \<le> length bs then Inr (le16 bs i) else Inl StructError)"
proof (cases "drop i bs")
  case Nil
  assume "j = i + 2"
  with Nil show ?thesis by (simp add: py_slice_def)
next
  case (Cons x xs)
  assume j: "j = i + 2"
  show ?thesis
  proof (cases xs)
    case Nil
    with Cons have "length (drop i bs) = 1" by simp
    then have "length bs = i + 1" by simp
    with Cons Nil j show ?thesis by (simp add: py_slice_def)
  next
    case (Cons y ys)
    with \<open>drop i bs = x # xs\<close> have d: "drop i bs = x # y # ys" by simp
    then have "length (drop i bs) \<ge> 2" by simp
    then have len: "i + 2 \<le> length bs" by simp
    have "bs ! i = x" using d len by (metis Cons_nth_drop_Suc drop_eq_Nil2 list.inject list.distinct(1) not_less nth_via_drop)
    moreover have "bs ! (i + 1) = y" using d len
      by (metis add.commute drop_drop list.sel(3) nth_via_drop plus_1_eq_Suc drop_Suc tl_drop)
    ultimately show ?thesis using d len j by (simp add: py_slice_def le16_def)
  qed
qed

lemma py_index_slice:
  "j = i + 4 \<Longrightarrow> py_index (py_slice bs i j) 3 =
     (if i + 4 \<le> length bs then Inr (bs ! (i + 3)) else Inl IndexError)"
  by (auto simp: py_index_def py_slice_def)

lemma read_capabilities_eq:
  "read_capabilities bs e = Inr (if e + 2 \<le> length bs then Some (le16 bs e) else None)"
  by (simp add: read_capabilities_def unpack_H_slice)

lemma parse_rsn_try_eq:
  "parse_rsn_try bs =
     (if length bs < 2 then Inl StructError
      else if le16 bs 0 \<noteq> 1 then Inr RsnEmpty
      else if length bs < 8 then Inl StructError
      else if length bs < rsn_akm_offset bs + 2 then Inl StructError
      else if length bs < 12 then Inl IndexError
      else if length bs < rsn_akm_offset bs + 6 then Inl IndexError
      else Inr (RsnInfo ''WPA2''
             (dict_get cipher_map (unat (bs ! 11)) ''Unknown'')
             (dict_get akm_map (unat (bs ! (rsn_akm_offset bs + 5))) ''Unknown'')
             (rsn_cap_offset bs + 2 \<le> length bs \<and> le16 bs (rsn_cap_offset bs) AND 0x0040 \<noteq> 0)
             (rsn_cap_offset bs + 2 \<le> length bs \<and> le16 bs (rsn_cap_offset bs) AND 0x0080 \<noteq> 0)))"
  by (simp add: parse_rsn_try_def unpack_H_slice py_index_slice read_capabilities_eq
      rsn_akm_offset_def rsn_cap_offset_def rsn_pairwise_count_def Let_def mult.commute add.commute add.left_commute)

text \<open>The decoder as a function of the element's bytes.\<close>

lemma parse_rsn_eq:
  "parse_rsn bs =
     (if rsn_truncated bs \<or> le16 bs 0 \<noteq> 1 then RsnEmpty
      else RsnInfo ''WPA2''
             (dict_get cipher_map (unat (bs ! 11)) ''Unknown'')
             (dict_get akm_map (unat (bs ! (rsn_akm_offset bs + 5))) ''Unknown'')
             (rsn_cap_offset bs + 2 \<le> length bs \<and> le16 bs (rsn_cap_offset bs) AND 0x0040 \<noteq> 0)
             (rsn_cap_offset bs + 2 \<le> length bs \<and> le16 bs (rsn_cap_offset bs) AND 0x0080 \<noteq> 0))"
  by (simp add: parse_rsn_def parse_rsn_try_eq rsn_truncated_def)

text \<open>With a non-empty RSN element the variable encryption is WPA2, decoded or not.\<close>

lemma rsn_security_wpa2: "ie \<noteq> [] \<Longrightarrow> fst (rsn_security (Some ie)) = ''WPA2''"
  by (simp add: rsn_security_def parse_rsn_eq)

section \<open>Lemmas: the handler\<close>

subsection \<open>Association lists\<close>

lemma update_absent: "map_of al k = None \<Longrightarrow> AList.update k v al = al @ [(k, v)]"
  by (induction al) (auto split: if_splits)

lemma update_present:
  "distinct (map fst al) \<Longrightarrow> map_of al k = Some r \<Longrightarrow>
   AList.update k v al = map (\<lambda>kd. if fst kd = k then (k, v) else kd) al"
proof (induction al)
  case Nil
  then show ?case by simp
next
  case (Cons p al)
  show ?case
  proof (cases "fst p = k")
    case True
    with Cons.prems have "k \<notin> fst ` set al" by auto
    then have "\<forall>kd \<in> set al. fst kd \<noteq> k" by blast
    then have "map (\<lambda>kd. if fst kd = k then (k, v) else kd) al = al"
      by (simp add: map_idI)
    with True show ?thesis by (cases p) simp
  next
    case False
    with Cons show ?thesis by (cases p) auto
  qed
qed

lemma update_keys:
  "map_of al k = Some r \<Longrightarrow> map fst (AList.update k v al) = map fst al"
  by (induction al) (auto split: if_splits)

lemma twin_update:
  "(\<exists>kd \<in> set (AList.update k v al). P (snd kd) \<and> fst kd \<noteq> k) =
   (\<exists>kd \<in> set al. P (snd kd) \<and> fst kd \<noteq> k)"
  by (induction al) auto

subsection \<open>The scan of the elements\<close>

lemma scan_elts_returns:
  "\<forall>e \<in> set es. fst e = 3 \<longrightarrow> snd e \<noteq> [] \<Longrightarrow> \<exists>v. scan_elts es vars = Inr v"
proof (induction es arbitrary: vars)
  case Nil
  show ?case by (cases vars) simp
next
  case (Cons e es)
  obtain ID info where e: "e = (ID, info)" by (cases e)
  obtain sr er ch ri where v: "vars = (sr, er, ch, ri)" by (cases vars)
  have ih: "\<And>w. \<exists>v. scan_elts es w = Inr v" using Cons by simp
  have ne: "ID = 3 \<Longrightarrow> info \<noteq> []" using Cons.prems e by simp
  show ?case unfolding e v using ih ne by (simp add: py_index_def)
qed

lemma scan_elts_Inr_ok:
  "scan_elts es vars = Inr v \<Longrightarrow> \<forall>e \<in> set es. fst e = 3 \<longrightarrow> snd e \<noteq> []"
proof (induction es arbitrary: vars)
  case Nil
  then show ?case by simp
next
  case (Cons x es)
  obtain ID info where x: "x = (ID, info)" by (cases x)
  obtain sr er ch ri where vs: "vars = (sr, er, ch, ri)" by (cases vars)
  have ne: "ID = 3 \<Longrightarrow> info \<noteq> []"
    using Cons.prems x vs by (auto simp: py_index_def)
  have "\<exists>w. scan_elts es w = Inr v"
    using Cons.prems x vs by (cases info) (simp_all add: py_index_def split: if_splits, blast+)
  then have "\<forall>e \<in> set es. fst e = 3 \<longrightarrow> snd e \<noteq> []" using Cons.IH by blast
  with ne x show ?case by simp
qed

lemma scan_elts_rsn:
  "scan_elts es (sr, er, ch, ri) = Inr (sr', er', ch', ri') \<Longrightarrow>
   ri' = (case filter (\<lambda>e. fst e = 48) es of [] \<Rightarrow> ri | fs \<Rightarrow> Some (snd (last fs)))"
proof (induction es arbitrary: sr er ch ri)
  case Nil
  then show ?case by simp
next
  case (Cons e es)
  obtain ID info where e: "e = (ID, info)" by (cases e)
  show ?case
  proof (cases "ID = 48")
    case True
    with Cons.prems e have "scan_elts es (sr, er, ch, Some info) = Inr (sr', er', ch', ri')"
      by simp
    from Cons.IH [OF this] show ?thesis using True e
      by (cases "filter (\<lambda>e. fst e = 48) es") simp_all
  next
    case False
    have "\<exists>sr1 er1 ch1. scan_elts es (sr1, er1, ch1, ri) = Inr (sr', er', ch', ri')"
    proof (cases "py_index info 0")
      case (Inl x)
      with Cons.prems e False show ?thesis by (simp split: if_splits) blast+
    next
      case (Inr c)
      with Cons.prems e False show ?thesis by (simp split: if_splits) blast+
    qed
    then obtain sr1 er1 ch1 where "scan_elts es (sr1, er1, ch1, ri) = Inr (sr', er', ch', ri')"
      by blast
    from Cons.IH [OF this] show ?thesis using False e by simp
  qed
qed

lemma scan_elts_channel:
  "\<forall>e \<in> set es. fst e = 3 \<longrightarrow> snd e \<noteq> [] \<Longrightarrow>
   scan_elts es (sr, er, ch, ri) = Inr (sr', er', ch', ri') \<Longrightarrow>
   ch' = (case filter (\<lambda>e. fst e = 3) es of [] \<Rightarrow> ch | fs \<Rightarrow> Some (uint (hd (snd (last fs)))))"
proof (induction es arbitrary: sr er ch ri)
  case Nil
  then show ?case by simp
next
  case (Cons e es)
  obtain ID info where e: "e = (ID, info)" by (cases e)
  have ok: "\<forall>e \<in> set es. fst e = 3 \<longrightarrow> snd e \<noteq> []" using Cons.prems(1) by simp
  show ?case
  proof (cases "ID = 3")
    case True
    with Cons.prems(1) e obtain c cs where info: "info = c # cs" by (cases info) auto
    with Cons.prems(2) e True
    have "scan_elts es (sr, er, Some (uint c), ri) = Inr (sr', er', ch', ri')"
      by (simp add: py_index_def)
    from Cons.IH [OF ok this] show ?thesis using True e info
      by (cases "filter (\<lambda>e. fst e = 3) es") simp_all
  next
    case False
    have "\<exists>sr1 er1 ri1. scan_elts es (sr1, er1, ch, ri1) = Inr (sr', er', ch', ri')"
      using Cons.prems(2) e False by (simp split: if_splits) blast+
    then obtain sr1 er1 ri1 where "scan_elts es (sr1, er1, ch, ri1) = Inr (sr', er', ch', ri')"
      by blast
    from Cons.IH [OF ok this] show ?thesis using False e by simp
  qed
qed

lemma scan_elts_error: "scan_elts es vars = Inl e \<Longrightarrow> e = IndexError"
proof (induction es arbitrary: vars)
  case Nil
  then show ?case by (cases vars) simp
next
  case (Cons x es)
  obtain ID info where x: "x = (ID, info)" by (cases x)
  obtain sr er ch ri where v: "vars = (sr, er, ch, ri)" by (cases vars)
  show ?case
  proof (cases "ID = 3 \<and> info = []")
    case True
    with Cons.prems x v show ?thesis by (simp add: py_index_def)
  next
    case False
    then have "\<exists>w. scan_elts es w = Inl e"
      using Cons.prems x v by (cases info) (simp_all add: py_index_def split: if_splits, blast+)
    then show ?thesis using Cons.IH by blast
  qed
qed

subsection \<open>Whitelist entries\<close>

lemma split_sep_ne [simp]: "split_sep c s \<noteq> []"
  by (induction s) (simp_all split: list.splits)

lemma split_sep_one: "split_sep c s = [y] \<Longrightarrow> s = y"
proof (induction s arbitrary: y)
  case Nil
  then show ?case by simp
next
  case (Cons a s)
  show ?case
  proof (cases "a = c")
    case True
    with Cons.prems show ?thesis by (cases s) (simp_all split: if_splits list.splits)
  next
    case False
    with Cons.prems obtain w where w: "split_sep c s = [w]" "y = a # w"
      by (auto split: list.splits)
    from Cons.IH [OF w(1)] w(2) show ?thesis by simp
  qed
qed

lemma split_sep_two: "split_sep c s = [x, y] \<Longrightarrow> s = x @ c # y"
proof (induction s arbitrary: x)
  case Nil
  then show ?case by simp
next
  case (Cons a s)
  show ?case
  proof (cases "a = c")
    case True
    with Cons.prems have "x = []" "split_sep c s = [y]" by simp_all
    with True split_sep_one [of c s y] show ?thesis by simp
  next
    case False
    with Cons.prems obtain w where w: "split_sep c s = [w, y]" "x = a # w"
      by (auto split: list.splits)
    from Cons.IH [OF w(1)] w(2) show ?thesis by simp
  qed
qed

lemma whitelisted_entry: "whitelisted wl e b \<Longrightarrow> e @ CHR '','' # b \<in> set wl"
proof (induction wl)
  case Nil
  then show ?case by simp
next
  case (Cons entry wl)
  show ?case
  proof (cases "\<exists>x y. split_sep CHR '','' entry = [x, y]")
    case True
    then obtain x y where xy: "split_sep CHR '','' entry = [x, y]" by blast
    then have entry: "entry = x @ CHR '','' # y" by (rule split_sep_two)
    show ?thesis
    proof (cases "e = x \<and> b = y")
      case True
      with entry show ?thesis by simp
    next
      case False
      with Cons.prems xy have "whitelisted wl e b" by auto
      with Cons.IH show ?thesis by simp
    qed
  next
    case False
    with Cons.prems have "whitelisted wl e b"
      by (auto split: list.splits)
    with Cons.IH show ?thesis by simp
  qed
qed

subsection \<open>Alerts\<close>

lemma add_alert_again: "bssid cur = b \<Longrightarrow> add_alert (add_alert als b cur ty) b cur ty' = add_alert als b cur ty"
  by (simp add: add_alert_def has_alert_def)

lemma evil_twin_scan_eq:
  "bssid cur = b \<Longrightarrow>
   evil_twin_scan kds e b cur als =
     (if \<exists>kd \<in> set kds. essid (snd kd) = e \<and> fst kd \<noteq> b
      then add_alert als b cur ''Evil Twin Detected'' else als)"
proof (induction kds arbitrary: als)
  case Nil
  then show ?case by simp
next
  case (Cons kd kds)
  obtain k d where kd: "kd = (k, d)" by (cases kd)
  show ?case
  proof (cases "essid d = e \<and> k \<noteq> b")
    case True
    then show ?thesis
      using Cons.IH [OF Cons.prems, of "add_alert als b cur ''Evil Twin Detected''"] Cons.prems
      by (simp add: kd add_alert_again)
  next
    case False
    then show ?thesis using Cons.IH [OF Cons.prems, of als] by (auto simp: kd)
  qed
qed

lemma check_alerts_eq:
  assumes "map_of (ap_data st) b = Some cur" and "bssid cur = b"
  shows "check_alerts wl ssid b st =
     Inr (st\<lparr>alerts :=
            if whitelisted wl ssid b \<or> has_alert (alerts st) b then alerts st
            else alerts st @
                 [\<lparr>snap = cur,
                   alert_type = (if ssid \<noteq> ''<Hidden>'' \<and> twin_known st ssid b
                                 then ''Evil Twin Detected'' else ''Not Whitelisted'')\<rparr>]\<rparr>)"
proof (cases "whitelisted wl ssid b")
  case True
  then show ?thesis by (simp add: check_alerts_def)
next
  case False
  then show ?thesis using assms
    by (simp add: check_alerts_def evil_twin_scan_eq twin_known_def add_alert_again Let_def)
       (auto simp: add_alert_def has_alert_def)
qed

subsection \<open>The registry update\<close>

lemma append_new_fields [simp]:
  "ap_data (append_new r v st) = ap_data st"
  "alerts (append_new r v st) = alerts st"
  "next_ref (append_new r v st) = next_ref st"
  by (simp_all add: append_new_def list_append_def split: option.splits)

lemma append_new_store:
  "store (append_new r v st) =
     (store st)(r := (case v of
                        Some x \<Rightarrow> if x \<in> set (store st r) then store st r else store st r @ [x]
                      | None \<Rightarrow> store st r))"
  by (auto simp: append_new_def list_append_def split: option.splits)

lemma append_new_ap_data:
  "append_new r v (st\<lparr>ap_data := x\<rparr>) = (append_new r v st)\<lparr>ap_data := x\<rparr>"
  by (simp add: append_new_def list_append_def split: option.splits)

lemma update_ap_data_new:
  assumes "map_of (ap_data st) b = None"
  shows "ap_data (update_ap_data b e sig ch mbv (en, ci, au, pm) st) =
           ap_data st @ [(b, \<lparr>essid = e, bssid = b, pwr = next_ref st, beacons = 1, data = 0,
                              channel = next_ref st + 1, mb = mbv, enc = en, cipher = ci,
                              auth = au, pmf = pm\<rparr>)]"
    and "alerts (update_ap_data b e sig ch mbv (en, ci, au, pm) st) = alerts st"
    and "next_ref (update_ap_data b e sig ch mbv (en, ci, au, pm) st) = next_ref st + 2"
    and "store (update_ap_data b e sig ch mbv (en, ci, au, pm) st) =
           (store st)(next_ref st := opt_list sig, next_ref st + 1 := opt_list ch)"
  using assms by (simp_all add: update_ap_data_def new_list_def update_absent)

lemma update_ap_data_known:
  assumes "map_of (ap_data st) b = Some r"
  shows "ap_data (update_ap_data b e sig ch mbv sec st) =
           AList.update b (r\<lparr>beacons := beacons r + 1\<rparr>) (ap_data st)"
    and "alerts (update_ap_data b e sig ch mbv sec st) = alerts st"
    and "next_ref (update_ap_data b e sig ch mbv sec st) = next_ref st"
    and "store (update_ap_data b e sig ch mbv sec st) =
           store (append_new (channel r) ch (append_new (pwr r) sig st))"
  using assms by (simp_all add: update_ap_data_def append_new_ap_data)

lemma update_ap_data_alerts [simp]:
  "alerts (update_ap_data b e sig ch mbv sec st) = alerts st"
  by (cases sec; cases "map_of (ap_data st) b")
     (simp_all add: update_ap_data_new update_ap_data_known)

lemma twin_known_update:
  "twin_known (update_ap_data b e sig ch mbv sec st) ssid b = twin_known st ssid b"
proof (cases "map_of (ap_data st) b")
  case None
  then show ?thesis
    by (cases sec) (auto simp: twin_known_def update_ap_data_new)
next
  case (Some r)
  then show ?thesis
    using twin_update [of b "r\<lparr>beacons := beacons r + 1\<rparr>" "ap_data st" "\<lambda>d. essid d = ssid"]
    by (simp add: twin_known_def update_ap_data_known)
qed

lemma update_ap_data_entry:
  assumes "\<forall>kd \<in> set (ap_data st). bssid (snd kd) = fst kd"
  shows "\<exists>cur. map_of (ap_data (update_ap_data b e sig ch mbv sec st)) b = Some cur \<and>
           bssid cur = b \<and>
           essid cur = (case map_of (ap_data st) b of None \<Rightarrow> e | Some r \<Rightarrow> essid r)"
proof (cases "map_of (ap_data st) b")
  case None
  then show ?thesis by (cases sec) (simp add: update_ap_data_new map_add_def)
next
  case (Some r)
  then have "(b, r) \<in> set (ap_data st)" by (rule map_of_SomeD)
  with assms have "bssid r = b" by force
  with Some show ?thesis by (simp add: update_ap_data_known update_conv')
qed

subsection \<open>One call of the handler\<close>

lemma handler_beacon:
  assumes "beacon_ok pkt"
  shows "\<exists>mbv. packet_handler pkt wl st =
           check_alerts wl (beacon_ssid pkt) (addr2 pkt)
             (update_ap_data (addr2 pkt) (beacon_ssid pkt) (dBm_AntSignal pkt)
                (beacon_channel pkt) mbv (rsn_security (beacon_rsn_ie pkt)) st)"
proof -
  have ok: "\<forall>e \<in> set (elts pkt). fst e = 3 \<longrightarrow> snd e \<noteq> []"
    and bc: "has_Dot11Beacon pkt" and ds: "\<exists>e \<in> set (elts pkt). fst e = 3"
    using assms by (simp_all add: beacon_ok_def)
  have ne: "elts pkt \<noteq> []" using ds by auto
  obtain v where "scan_elts (elts pkt) ([], [], None, None) = Inr v"
    using scan_elts_returns [OF ok] by blast
  then obtain sr er c0 ri where
    sc: "scan_elts (elts pkt) ([], [], None, None) = Inr (sr, er, c0, ri)"
    by (cases v) auto
  have ri: "ri = beacon_rsn_ie pkt"
    using scan_elts_rsn [OF sc] by (simp add: beacon_rsn_ie_def)
  have c0: "c0 = beacon_channel pkt"
    using scan_elts_channel [OF ok sc] by (simp add: beacon_channel_def)
  have "filter (\<lambda>e. fst e = 3) (elts pkt) \<noteq> []"
    using ds by (simp add: filter_empty_conv)
  then obtain c where c: "beacon_channel pkt = Some c"
    by (cases "filter (\<lambda>e. fst e = 3) (elts pkt)") (simp_all add: beacon_channel_def)
  have c0': "c0 = Some c" using c0 c by simp
  show ?thesis
    using bc ne
    by (intro exI [of _ "max_bit_rate (sr @ er)"])
       (simp add: packet_handler_def sc c0' c ri [symmetric] beacon_ssid_def Let_def)
qed

lemma handler_Inr_beacon_ok:
  assumes "has_Dot11Beacon pkt" and "packet_handler pkt wl st = Inr st'"
  shows "beacon_ok pkt"
proof -
  have ne: "elts pkt \<noteq> []"
    using assms by (cases "elts pkt = []") (simp_all add: packet_handler_def)
  obtain v where "scan_elts (elts pkt) ([], [], None, None) = Inr v"
    using assms ne by (cases "scan_elts (elts pkt) ([], [], None, None)")
      (simp_all add: packet_handler_def Let_def)
  then obtain sr er c0 ri where
    sc: "scan_elts (elts pkt) ([], [], None, None) = Inr (sr, er, c0, ri)"
    by (cases v) auto
  have ok: "\<forall>e \<in> set (elts pkt). fst e = 3 \<longrightarrow> snd e \<noteq> []"
    using sc by (rule scan_elts_Inr_ok)
  have "c0 \<noteq> None"
    using assms ne by (cases c0) (simp_all add: packet_handler_def sc Let_def)
  with scan_elts_channel [OF ok sc] have "filter (\<lambda>e. fst e = 3) (elts pkt) \<noteq> []"
    by (cases "filter (\<lambda>e. fst e = 3) (elts pkt)") simp_all
  then have "\<exists>e \<in> set (elts pkt). fst e = 3" by (simp add: filter_empty_conv)
  with ok assms(1) show ?thesis by (simp add: beacon_ok_def)
qed

lemma handler_data_frame:
  assumes "\<not> has_Dot11Beacon pkt"
  shows "packet_handler pkt wl st =
     Inr (if has_Dot11 pkt \<and> dot11_type pkt = 2 then
            (case map_of (ap_data st) (addr3 pkt) of
               Some r \<Rightarrow> st\<lparr>ap_data := AList.update (addr3 pkt) (r\<lparr>data := data r + 1\<rparr>) (ap_data st)\<rparr>
             | None \<Rightarrow> st)
          else st)"
  using assms by (simp add: packet_handler_def Let_def split: option.splits)

lemma beacon_step:
  assumes "beacon_ok pkt" and "\<forall>kd \<in> set (ap_data st). bssid (snd kd) = fst kd"
  shows "\<exists>mbv cur.
     map_of (ap_data (update_ap_data (addr2 pkt) (beacon_ssid pkt) (dBm_AntSignal pkt)
        (beacon_channel pkt) mbv (rsn_security (beacon_rsn_ie pkt)) st)) (addr2 pkt) = Some cur \<and>
     bssid cur = addr2 pkt \<and>
     essid cur = (case map_of (ap_data st) (addr2 pkt) of
                    None \<Rightarrow> beacon_ssid pkt | Some r \<Rightarrow> essid r) \<and>
     packet_handler pkt wl st =
       Inr ((update_ap_data (addr2 pkt) (beacon_ssid pkt) (dBm_AntSignal pkt)
              (beacon_channel pkt) mbv (rsn_security (beacon_rsn_ie pkt)) st)
            \<lparr>alerts :=
               if whitelisted wl (beacon_ssid pkt) (addr2 pkt) \<or> has_alert (alerts st) (addr2 pkt)
               then alerts st
               else alerts st @
                    [\<lparr>snap = cur,
                      alert_type =
                        (if beacon_ssid pkt \<noteq> ''<Hidden>'' \<and>
                            twin_known st (beacon_ssid pkt) (addr2 pkt)
                         then ''Evil Twin Detected'' else ''Not Whitelisted'')\<rparr>]\<rparr>)"
proof -
  obtain mbv where h: "packet_handler pkt wl st =
           check_alerts wl (beacon_ssid pkt) (addr2 pkt)
             (update_ap_data (addr2 pkt) (beacon_ssid pkt) (dBm_AntSignal pkt)
                (beacon_channel pkt) mbv (rsn_security (beacon_rsn_ie pkt)) st)"
    using handler_beacon [OF assms(1)] by blast
  obtain cur where c: "map_of (ap_data (update_ap_data (addr2 pkt) (beacon_ssid pkt)
        (dBm_AntSignal pkt) (beacon_channel pkt) mbv (rsn_security (beacon_rsn_ie pkt)) st))
        (addr2 pkt) = Some cur" "bssid cur = addr2 pkt"
     "essid cur = (case map_of (ap_data st) (addr2 pkt) of
                    None \<Rightarrow> beacon_ssid pkt | Some r \<Rightarrow> essid r)"
    using update_ap_data_entry [OF assms(2)] by blast
  show ?thesis
    using c h check_alerts_eq [OF c(1) c(2), of wl "beacon_ssid pkt"]
    by (intro exI [of _ mbv] exI [of _ cur]) (simp add: twin_known_update)
qed

lemma update_ap_data_has_key:
  "map_of (ap_data (update_ap_data b e sig ch mbv sec st)) b \<noteq> None"
proof (cases "map_of (ap_data st) b")
  case None
  then show ?thesis by (cases sec) (simp add: update_ap_data_new map_add_def)
next
  case (Some r)
  then show ?thesis by (simp add: update_ap_data_known update_conv')
qed

lemma check_alerts_returns:
  "map_of (ap_data st) b \<noteq> None \<Longrightarrow> \<exists>st'. check_alerts wl ssid b st = Inr st'"
  by (auto simp: check_alerts_def Let_def)

text \<open>
  The exceptions that leave the handler are the IndexError of a beacon without elements or
  with an empty DS Parameter Set, and the AttributeError of a beacon without a DS
  Parameter Set.
\<close>

lemma packet_handler_raises:
  assumes "packet_handler pkt wl st = Inl e"
  shows "(e = IndexError \<or> e = AttributeError) \<and> has_Dot11Beacon pkt \<and> \<not> beacon_ok pkt"
proof -
  have b: "has_Dot11Beacon pkt"
    using assms handler_data_frame [of pkt wl st] by (cases "has_Dot11Beacon pkt") auto
  have nok: "\<not> beacon_ok pkt"
  proof
    assume "beacon_ok pkt"
    from handler_beacon [OF this, of wl st] obtain mbv where
      "packet_handler pkt wl st =
           check_alerts wl (beacon_ssid pkt) (addr2 pkt)
             (update_ap_data (addr2 pkt) (beacon_ssid pkt) (dBm_AntSignal pkt)
                (beacon_channel pkt) mbv (rsn_security (beacon_rsn_ie pkt)) st)"
      by blast
    with check_alerts_returns [OF update_ap_data_has_key] assms show False
      by (metis Inl_Inr_False)
  qed
  have "e = IndexError \<or> e = AttributeError"
  proof (cases "elts pkt = []")
    case True
    with assms b show ?thesis by (simp add: packet_handler_def)
  next
    case ne: False
    show ?thesis
    proof (cases "scan_elts (elts pkt) ([], [], None, None)")
      case (Inl x)
      then have "x = IndexError" by (rule scan_elts_error)
      moreover have "e = x" using assms b ne Inl by (simp add: packet_handler_def Let_def)
      ultimately show ?thesis by simp
    next
      case (Inr v)
      obtain sr er c0 ri where v: "v = (sr, er, c0, ri)" by (cases v)
      show ?thesis
      proof (cases c0)
        case None
        with assms b ne Inr v show ?thesis by (simp add: packet_handler_def Let_def)
      next
        case (Some c)
        have "\<exists>st'. packet_handler pkt wl st = Inr st'"
          using b ne Inr v Some check_alerts_returns [OF update_ap_data_has_key]
          by (simp add: packet_handler_def Let_def)
        with assms show ?thesis by simp
      qed
    qed
  qed
  with b nok show ?thesis by simp
qed

text \<open>
  Two beacons that the handler does not get through: one with the name and the rates but
  no DS Parameter Set, and one without any element.
\<close>

lemma beacon_without_ds_raises:
  "packet_handler
     \<lparr>has_Dot11Beacon = True, has_Dot11 = True, dot11_type = 0, addr2 = ''A'', addr3 = ''A'',
      raw_ssid = ''Net'', dBm_AntSignal = Some (- 45), elts = [(0, []), (1, [130])]\<rparr> wl st =
   Inl AttributeError"
  by (simp add: packet_handler_def)

lemma beacon_without_elements_raises:
  "packet_handler
     \<lparr>has_Dot11Beacon = True, has_Dot11 = True, dot11_type = 0, addr2 = ''A'', addr3 = ''A'',
      raw_ssid = [], dBm_AntSignal = Some (- 45), elts = []\<rparr> wl st =
   Inl IndexError"
  by (simp add: packet_handler_def)

subsection \<open>The invariant\<close>

lemma wf_init: "wf_state init_state"
  by (simp add: wf_state_def init_state_def entry_refs_def)

lemma wf_append_new: "wf_state (append_new r v st) = wf_state st"
  by (simp add: wf_state_def)

lemma wf_alerts_update:
  "wf_state st \<Longrightarrow> distinct (map (\<lambda>a. bssid (snap a)) als) \<Longrightarrow> wf_state (st\<lparr>alerts := als\<rparr>)"
  by (simp add: wf_state_def)

lemma wf_entry_update:
  assumes wf: "wf_state st" and r: "map_of (ap_data st) k = Some r"
    and same: "bssid r' = bssid r" "pwr r' = pwr r" "channel r' = channel r"
  shows "wf_state (st\<lparr>ap_data := AList.update k r' (ap_data st)\<rparr>)"
proof -
  let ?f = "\<lambda>kd. if fst kd = k then (k, r') else kd"
  have d: "distinct (map fst (ap_data st))" using wf by (simp add: wf_state_def)
  have upd: "AList.update k r' (ap_data st) = map ?f (ap_data st)"
    using d r by (rule update_present)
  have at_k: "\<And>kd. kd \<in> set (ap_data st) \<Longrightarrow> fst kd = k \<Longrightarrow> snd kd = r"
  proof -
    fix kd assume "kd \<in> set (ap_data st)" "fst kd = k"
    then have "map_of (ap_data st) k = Some (snd kd)"
      using d map_of_is_SomeI [of "ap_data st" "fst kd" "snd kd"] by (cases kd) auto
    with r show "snd kd = r" by simp
  qed
  have keys: "distinct (map fst (AList.update k r' (ap_data st)))"
    using d by (rule distinct_update)
  have "entry_refs (map ?f (ap_data st)) = entry_refs (ap_data st)"
    unfolding entry_refs_def map_map
    by (rule arg_cong [where f = concat], rule map_cong) (auto simp: same dest: at_k)
  then have refs: "entry_refs (AList.update k r' (ap_data st)) = entry_refs (ap_data st)"
    by (simp only: upd)
  have "\<forall>kd \<in> set (map ?f (ap_data st)). bssid (snd kd) = fst kd"
    using wf at_k same by (auto simp: wf_state_def)
  then have named: "\<forall>kd \<in> set (AList.update k r' (ap_data st)). bssid (snd kd) = fst kd"
    by (simp only: upd)
  have rest: "distinct (entry_refs (ap_data st))"
    "\<forall>r \<in> set (entry_refs (ap_data st)). r < next_ref st"
    "distinct (map (\<lambda>a. bssid (snap a)) (alerts st))"
    using wf by (simp_all add: wf_state_def)
  show ?thesis
    unfolding wf_state_def using keys named rest by (simp add: refs)
qed

lemma wf_update_ap_data:
  assumes wf: "wf_state st"
  shows "wf_state (update_ap_data b e sig ch mbv sec st)"
proof (cases "map_of (ap_data st) b")
  case None
  obtain en ci au pm where sec: "sec = (en, ci, au, pm)" by (cases sec)
  have nb: "b \<notin> fst ` set (ap_data st)" using None by (simp add: map_of_eq_None_iff)
  show ?thesis
    using wf nb unfolding sec wf_state_def update_ap_data_new [OF None]
    by (auto simp: entry_refs_def)
next
  case (Some r)
  have "wf_state (st\<lparr>ap_data := AList.update b (r\<lparr>beacons := beacons r + 1\<rparr>) (ap_data st)\<rparr>)"
    using wf Some by (rule wf_entry_update) simp_all
  then show ?thesis using Some by (simp add: update_ap_data_def wf_append_new)
qed

lemma alerts_step:
  assumes wf: "wf_state st" and h: "packet_handler pkt wl st = Inr st'"
  shows "\<exists>new. alerts st' = alerts st @ new \<and> length new \<le> 1 \<and>
           (\<forall>a \<in> set new. bssid (snap a) = addr2 pkt \<and> has_Dot11Beacon pkt \<and>
              \<not> has_alert (alerts st) (bssid (snap a)))"
proof (cases "has_Dot11Beacon pkt")
  case True
  then have ok: "beacon_ok pkt" using h by (rule handler_Inr_beacon_ok)
  have named: "\<forall>kd \<in> set (ap_data st). bssid (snd kd) = fst kd"
    using wf by (simp add: wf_state_def)
  from beacon_step [OF ok named, of wl] obtain mbv cur where
    c: "bssid cur = addr2 pkt" and
    eq: "packet_handler pkt wl st =
       Inr ((update_ap_data (addr2 pkt) (beacon_ssid pkt) (dBm_AntSignal pkt)
              (beacon_channel pkt) mbv (rsn_security (beacon_rsn_ie pkt)) st)
            \<lparr>alerts :=
               if whitelisted wl (beacon_ssid pkt) (addr2 pkt) \<or> has_alert (alerts st) (addr2 pkt)
               then alerts st
               else alerts st @
                    [\<lparr>snap = cur,
                      alert_type =
                        (if beacon_ssid pkt \<noteq> ''<Hidden>'' \<and>
                            twin_known st (beacon_ssid pkt) (addr2 pkt)
                         then ''Evil Twin Detected'' else ''Not Whitelisted'')\<rparr>]\<rparr>)"
    by blast
  from eq h have al: "alerts st' =
     (if whitelisted wl (beacon_ssid pkt) (addr2 pkt) \<or> has_alert (alerts st) (addr2 pkt)
      then alerts st
      else alerts st @
           [\<lparr>snap = cur,
             alert_type =
               (if beacon_ssid pkt \<noteq> ''<Hidden>'' \<and> twin_known st (beacon_ssid pkt) (addr2 pkt)
                then ''Evil Twin Detected'' else ''Not Whitelisted'')\<rparr>])"
    by auto
  show ?thesis
  proof (cases "whitelisted wl (beacon_ssid pkt) (addr2 pkt) \<or> has_alert (alerts st) (addr2 pkt)")
    case True
    with al have "alerts st' = alerts st @ []" by simp
    then show ?thesis by (intro exI [of _ "[]"]) simp
  next
    case False
    with al c \<open>has_Dot11Beacon pkt\<close> show ?thesis by simp
  qed
next
  case False
  from handler_data_frame [OF False, of wl st] h have "alerts st' = alerts st"
    by (auto split: if_splits option.splits)
  then show ?thesis by simp
qed

lemma wf_packet_handler:
  assumes wf: "wf_state st" and h: "packet_handler pkt wl st = Inr st'"
  shows "wf_state st'"
proof (cases "has_Dot11Beacon pkt")
  case True
  then have ok: "beacon_ok pkt" using h by (rule handler_Inr_beacon_ok)
  have named: "\<forall>kd \<in> set (ap_data st). bssid (snd kd) = fst kd"
    using wf by (simp add: wf_state_def)
  obtain new where new: "alerts st' = alerts st @ new" "length new \<le> 1"
    "\<forall>a \<in> set new. \<not> has_alert (alerts st) (bssid (snap a))"
    using alerts_step [OF wf h] by blast
  have "distinct (map (\<lambda>a. bssid (snap a)) new)"
    using new(2) by (cases new) (auto simp: Suc_le_eq)
  then have da: "distinct (map (\<lambda>a. bssid (snap a)) (alerts st'))"
    using wf new by (auto simp: wf_state_def has_alert_def)
  from beacon_step [OF ok named, of wl] h obtain mbv where
    "st' = (update_ap_data (addr2 pkt) (beacon_ssid pkt) (dBm_AntSignal pkt)
              (beacon_channel pkt) mbv (rsn_security (beacon_rsn_ie pkt)) st)\<lparr>alerts := alerts st'\<rparr>"
    by auto
  moreover have "wf_state ((update_ap_data (addr2 pkt) (beacon_ssid pkt) (dBm_AntSignal pkt)
              (beacon_channel pkt) mbv (rsn_security (beacon_rsn_ie pkt)) st)\<lparr>alerts := alerts st'\<rparr>)"
    using wf_update_ap_data [OF wf] da by (rule wf_alerts_update)
  ultimately show ?thesis by simp
next
  case False
  show ?thesis
  proof (cases "has_Dot11 pkt \<and> dot11_type pkt = 2")
    case True
    show ?thesis
    proof (cases "map_of (ap_data st) (addr3 pkt)")
      case None
      with handler_data_frame [OF False, of wl st] h True wf show ?thesis by simp
    next
      case (Some r)
      have "wf_state (st\<lparr>ap_data := AList.update (addr3 pkt) (r\<lparr>data := data r + 1\<rparr>) (ap_data st)\<rparr>)"
        using wf Some by (rule wf_entry_update) simp_all
      with handler_data_frame [OF False, of wl st] h True Some show ?thesis by simp
    qed
  next
    case False
    with handler_data_frame [OF \<open>\<not> has_Dot11Beacon pkt\<close>, of wl st] h wf show ?thesis
      by (simp split: if_splits)
  qed
qed

lemma wf_process_frames:
  "wf_state st \<Longrightarrow> process_frames wl pkts st = Inr st' \<Longrightarrow> wf_state st'"
proof (induction pkts arbitrary: st)
  case Nil
  then show ?case by simp
next
  case (Cons p pkts)
  then show ?case
    by (cases "packet_handler p wl st") (auto dest: wf_packet_handler)
qed

lemma wf_reached: "process_frames wl pkts init_state = Inr st \<Longrightarrow> wf_state st"
  using wf_init by (rule wf_process_frames)

lemma entry_own_lists:
  assumes "wf_state st" and "map_of (ap_data st) k = Some r"
  shows "pwr r \<noteq> channel r"
proof -
  have "(k, r) \<in> set (ap_data st)" using assms(2) by (rule map_of_SomeD)
  then have "[pwr r, channel r] \<in> set (map (\<lambda>kd. [pwr (snd kd), channel (snd kd)]) (ap_data st))"
    by force
  moreover have "distinct (concat (map (\<lambda>kd. [pwr (snd kd), channel (snd kd)]) (ap_data st)))"
    using assms(1) by (simp add: wf_state_def entry_refs_def)
  ultimately have "distinct [pwr r, channel r]" using distinct_concat_iff by blast
  then show ?thesis by simp
qed

subsection \<open>First and repeat beacons\<close>

lemma repeat_beacon_step:
  assumes wf: "wf_state st" and ok: "beacon_ok pkt"
    and known: "map_of (ap_data st) (addr2 pkt) = Some r"
  shows "\<exists>st'. packet_handler pkt wl st = Inr st' \<and>
     ap_data st' = AList.update (addr2 pkt) (r\<lparr>beacons := beacons r + 1\<rparr>) (ap_data st) \<and>
     store st' = (store st)(pwr r := add_new (store st (pwr r)) (dBm_AntSignal pkt),
                            channel r := add_new (store st (channel r)) (beacon_channel pkt)) \<and>
     next_ref st' = next_ref st \<and>
     alerts st' =
       (if whitelisted wl (beacon_ssid pkt) (addr2 pkt) \<or> has_alert (alerts st) (addr2 pkt)
        then alerts st
        else alerts st @
             [\<lparr>snap = r\<lparr>beacons := beacons r + 1\<rparr>,
               alert_type =
                 (if beacon_ssid pkt \<noteq> ''<Hidden>'' \<and> twin_known st (beacon_ssid pkt) (addr2 pkt)
                  then ''Evil Twin Detected'' else ''Not Whitelisted'')\<rparr>])"
proof -
  have named: "\<forall>kd \<in> set (ap_data st). bssid (snd kd) = fst kd"
    using wf by (simp add: wf_state_def)
  have ne: "pwr r \<noteq> channel r" using wf known by (rule entry_own_lists)
  from beacon_step [OF ok named, of wl] obtain mbv cur where
    cur: "map_of (ap_data (update_ap_data (addr2 pkt) (beacon_ssid pkt) (dBm_AntSignal pkt)
        (beacon_channel pkt) mbv (rsn_security (beacon_rsn_ie pkt)) st)) (addr2 pkt) = Some cur"
    and eq: "packet_handler pkt wl st =
       Inr ((update_ap_data (addr2 pkt) (beacon_ssid pkt) (dBm_AntSignal pkt)
              (beacon_channel pkt) mbv (rsn_security (beacon_rsn_ie pkt)) st)
            \<lparr>alerts :=
               if whitelisted wl (beacon_ssid pkt) (addr2 pkt) \<or> has_alert (alerts st) (addr2 pkt)
               then alerts st
               else alerts st @
                    [\<lparr>snap = cur,
                      alert_type =
                        (if beacon_ssid pkt \<noteq> ''<Hidden>'' \<and>
                            twin_known st (beacon_ssid pkt) (addr2 pkt)
                         then ''Evil Twin Detected'' else ''Not Whitelisted'')\<rparr>]\<rparr>)"
    by blast
  have c: "cur = r\<lparr>beacons := beacons r + 1\<rparr>"
    using cur by (simp add: update_ap_data_known [OF known] update_conv')
  have s: "store (update_ap_data (addr2 pkt) (beacon_ssid pkt) (dBm_AntSignal pkt)
        (beacon_channel pkt) mbv (rsn_security (beacon_rsn_ie pkt)) st) =
      (store st)(pwr r := add_new (store st (pwr r)) (dBm_AntSignal pkt),
                 channel r := add_new (store st (channel r)) (beacon_channel pkt))"
    using ne
    by (simp add: update_ap_data_known [OF known] append_new_store add_new_def
        split: option.splits)
  show ?thesis
    unfolding eq c
    by (simp add: update_ap_data_known(1) [OF known] update_ap_data_known(3) [OF known] s)
qed

lemma first_beacon_step:
  assumes wf: "wf_state st" and ok: "beacon_ok pkt"
    and new: "map_of (ap_data st) (addr2 pkt) = None"
  shows "\<exists>st' cur. packet_handler pkt wl st = Inr st' \<and>
     ap_data st' = ap_data st @ [(addr2 pkt, cur)] \<and>
     bssid cur = addr2 pkt \<and> essid cur = beacon_ssid pkt \<and>
     beacons cur = 1 \<and> data cur = 0 \<and>
     (enc cur, cipher cur, auth cur, pmf cur) = rsn_security (beacon_rsn_ie pkt) \<and>
     store st' (pwr cur) = opt_list (dBm_AntSignal pkt) \<and>
     store st' (channel cur) = opt_list (beacon_channel pkt) \<and>
     alerts st' =
       (if whitelisted wl (beacon_ssid pkt) (addr2 pkt) \<or> has_alert (alerts st) (addr2 pkt)
        then alerts st
        else alerts st @
             [\<lparr>snap = cur,
               alert_type =
                 (if beacon_ssid pkt \<noteq> ''<Hidden>'' \<and> twin_known st (beacon_ssid pkt) (addr2 pkt)
                  then ''Evil Twin Detected'' else ''Not Whitelisted'')\<rparr>])"
proof -
  have named: "\<forall>kd \<in> set (ap_data st). bssid (snd kd) = fst kd"
    using wf by (simp add: wf_state_def)
  obtain en ci au pm where sec: "rsn_security (beacon_rsn_ie pkt) = (en, ci, au, pm)"
    by (cases "rsn_security (beacon_rsn_ie pkt)")
  from beacon_step [OF ok named, of wl] obtain mbv cur where
    cur: "map_of (ap_data (update_ap_data (addr2 pkt) (beacon_ssid pkt) (dBm_AntSignal pkt)
        (beacon_channel pkt) mbv (rsn_security (beacon_rsn_ie pkt)) st)) (addr2 pkt) = Some cur"
    and eq: "packet_handler pkt wl st =
       Inr ((update_ap_data (addr2 pkt) (beacon_ssid pkt) (dBm_AntSignal pkt)
              (beacon_channel pkt) mbv (rsn_security (beacon_rsn_ie pkt)) st)
            \<lparr>alerts :=
               if whitelisted wl (beacon_ssid pkt) (addr2 pkt) \<or> has_alert (alerts st) (addr2 pkt)
               then alerts st
               else alerts st @
                    [\<lparr>snap = cur,
                      alert_type =
                        (if beacon_ssid pkt \<noteq> ''<Hidden>'' \<and>
                            twin_known st (beacon_ssid pkt) (addr2 pkt)
                         then ''Evil Twin Detected'' else ''Not Whitelisted'')\<rparr>]\<rparr>)"
    by blast
  have c: "cur = \<lparr>essid = beacon_ssid pkt, bssid = addr2 pkt, pwr = next_ref st, beacons = 1,
                  data = 0, channel = next_ref st + 1, mb = mbv, enc = en, cipher = ci,
                  auth = au, pmf = pm\<rparr>"
    using cur new by (simp add: sec update_ap_data_new map_add_def)
  define st' where "st' = (update_ap_data (addr2 pkt) (beacon_ssid pkt) (dBm_AntSignal pkt)
              (beacon_channel pkt) mbv (rsn_security (beacon_rsn_ie pkt)) st)
            \<lparr>alerts :=
               if whitelisted wl (beacon_ssid pkt) (addr2 pkt) \<or> has_alert (alerts st) (addr2 pkt)
               then alerts st
               else alerts st @
                    [\<lparr>snap = cur,
                      alert_type =
                        (if beacon_ssid pkt \<noteq> ''<Hidden>'' \<and>
                            twin_known st (beacon_ssid pkt) (addr2 pkt)
                         then ''Evil Twin Detected'' else ''Not Whitelisted'')\<rparr>]\<rparr>"
  have h: "packet_handler pkt wl st = Inr st'" using eq by (simp add: st'_def)
  have f: "ap_data st' = ap_data st @ [(addr2 pkt, cur)]"
    "store st' (pwr cur) = opt_list (dBm_AntSignal pkt)"
    "store st' (channel cur) = opt_list (beacon_channel pkt)"
    by (simp_all add: st'_def c sec update_ap_data_new [OF new])
  have a: "alerts st' =
       (if whitelisted wl (beacon_ssid pkt) (addr2 pkt) \<or> has_alert (alerts st) (addr2 pkt)
        then alerts st
        else alerts st @
             [\<lparr>snap = cur,
               alert_type =
                 (if beacon_ssid pkt \<noteq> ''<Hidden>'' \<and> twin_known st (beacon_ssid pkt) (addr2 pkt)
                  then ''Evil Twin Detected'' else ''Not Whitelisted'')\<rparr>])"
    by (simp add: st'_def)
  have g: "bssid cur = addr2 pkt" "essid cur = beacon_ssid pkt" "beacons cur = 1" "data cur = 0"
    "(enc cur, cipher cur, auth cur, pmf cur) = rsn_security (beacon_rsn_ie pkt)"
    by (simp_all add: c sec)
  show ?thesis
    using h f a g by (intro exI [of _ st'] exI [of _ cur] conjI)
qed

lemma beacon_alerts:
  assumes wf: "wf_state st" and ok: "beacon_ok pkt"
  shows "\<exists>st' cur. packet_handler pkt wl st = Inr st' \<and> wf_state st' \<and>
     bssid cur = addr2 pkt \<and>
     alerts st' =
       (if whitelisted wl (beacon_ssid pkt) (addr2 pkt) \<or> has_alert (alerts st) (addr2 pkt)
        then alerts st
        else alerts st @
             [\<lparr>snap = cur,
               alert_type =
                 (if beacon_ssid pkt \<noteq> ''<Hidden>'' \<and> twin_known st (beacon_ssid pkt) (addr2 pkt)
                  then ''Evil Twin Detected'' else ''Not Whitelisted'')\<rparr>])"
proof -
  have named: "\<forall>kd \<in> set (ap_data st). bssid (snd kd) = fst kd"
    using wf by (simp add: wf_state_def)
  from beacon_step [OF ok named, of wl] obtain st' cur where
    h: "packet_handler pkt wl st = Inr st'" and c: "bssid cur = addr2 pkt" and
    a: "alerts st' =
       (if whitelisted wl (beacon_ssid pkt) (addr2 pkt) \<or> has_alert (alerts st) (addr2 pkt)
        then alerts st
        else alerts st @
             [\<lparr>snap = cur,
               alert_type =
                 (if beacon_ssid pkt \<noteq> ''<Hidden>'' \<and> twin_known st (beacon_ssid pkt) (addr2 pkt)
                  then ''Evil Twin Detected'' else ''Not Whitelisted'')\<rparr>])"
    by auto
  have "wf_state st'" using wf h by (rule wf_packet_handler)
  with h c a show ?thesis by blast
qed

lemma alerts_run:
  "wf_state st \<Longrightarrow> process_frames wl pkts st = Inr st' \<Longrightarrow>
   \<exists>new. alerts st' = alerts st @ new \<and>
         (\<forall>a \<in> set new. \<not> has_alert (alerts st) (bssid (snap a)))"
proof (induction pkts arbitrary: st)
  case Nil
  then show ?case by simp
next
  case (Cons p pkts)
  from Cons.prems(2) obtain st1 where
    h: "packet_handler p wl st = Inr st1" and rest: "process_frames wl pkts st1 = Inr st'"
    by (cases "packet_handler p wl st") auto
  have wf1: "wf_state st1" using Cons.prems(1) h by (rule wf_packet_handler)
  obtain n1 where n1: "alerts st1 = alerts st @ n1"
    "\<forall>a \<in> set n1. \<not> has_alert (alerts st) (bssid (snap a))"
    using alerts_step [OF Cons.prems(1) h] by blast
  obtain n2 where n2: "alerts st' = alerts st1 @ n2"
    "\<forall>a \<in> set n2. \<not> has_alert (alerts st1) (bssid (snap a))"
    using Cons.IH [OF wf1 rest] by blast
  have "alerts st' = alerts st @ (n1 @ n2)" using n1(1) n2(1) by simp
  moreover have "\<forall>a \<in> set (n1 @ n2). \<not> has_alert (alerts st) (bssid (snap a))"
    using n1 n2(2) by (auto simp: has_alert_def)
  ultimately show ?case by blast
qed

subsection \<open>Runs of beacons from a whitelisted and a foreign BSSID\<close>

lemma after_first_alert:
  assumes wl: "whitelisted wl ''Net'' A"
  shows "wf_state st \<Longrightarrow> alert_log st = [(B, t)] \<Longrightarrow>
     \<forall>p \<in> set pkts. beacon_ok p \<and> (addr2 p = A \<or> addr2 p = B) \<and> raw_ssid p = ''Net'' \<Longrightarrow>
     \<exists>st'. process_frames wl pkts st = Inr st' \<and> alert_log st' = [(B, t)]"
proof (induction pkts arbitrary: st)
  case Nil
  then show ?case by simp
next
  case (Cons p pkts)
  have ok: "beacon_ok p" and ab: "addr2 p = A \<or> addr2 p = B" and ss: "beacon_ssid p = ''Net''"
    using Cons.prems(3) by (simp_all add: beacon_ssid_def)
  have hb: "has_alert (alerts st) B"
    using Cons.prems(2) by (auto simp: alert_log_def has_alert_def)
  obtain st1 where s1: "packet_handler p wl st = Inr st1" "wf_state st1"
    "alerts st1 = alerts st"
    using beacon_alerts [OF Cons.prems(1) ok, of wl] ab wl hb by (auto simp: ss)
  have "alert_log st1 = [(B, t)]" using Cons.prems(2) s1(3) by (simp add: alert_log_def)
  from Cons.IH [OF s1(2) this] Cons.prems(3) obtain st' where
    "process_frames wl pkts st1 = Inr st'" "alert_log st' = [(B, t)]" by auto
  then show ?case using s1(1) by simp
qed

lemma before_first_alert:
  assumes wl: "whitelisted wl ''Net'' A" and nwl: "\<not> whitelisted wl ''Net'' B"
  shows "wf_state st \<Longrightarrow> alerts st = [] \<Longrightarrow>
     (if s then (\<exists>e. ap_data st = [(A, e)] \<and> essid e = ''Net'') else ap_data st = []) \<Longrightarrow>
     \<forall>p \<in> set pkts. beacon_ok p \<and> (addr2 p = A \<or> addr2 p = B) \<and> raw_ssid p = ''Net'' \<Longrightarrow>
     \<exists>st'. process_frames wl pkts st = Inr st' \<and>
       alert_log st' =
         (if B \<notin> addr2 ` set pkts then []
          else [(B, if s \<or> A \<in> addr2 ` set (takeWhile (\<lambda>p. addr2 p \<noteq> B) pkts)
                    then ''Evil Twin Detected'' else ''Not Whitelisted'')])"
proof (induction pkts arbitrary: s st)
  case Nil
  then show ?case by (simp add: alert_log_def)
next
  case (Cons p pkts)
  have ne: "A \<noteq> B" using wl nwl by auto
  have ok: "beacon_ok p" and ab: "addr2 p = A \<or> addr2 p = B" and ss: "beacon_ssid p = ''Net''"
    using Cons.prems(4) by (simp_all add: beacon_ssid_def)
  have rest: "\<forall>p \<in> set pkts. beacon_ok p \<and> (addr2 p = A \<or> addr2 p = B) \<and> raw_ssid p = ''Net''"
    using Cons.prems(4) by simp
  show ?case
  proof (cases "addr2 p = B")
    case False
    with ab have pa: "addr2 p = A" by simp
    have "\<exists>st1. packet_handler p wl st = Inr st1 \<and> wf_state st1 \<and> alerts st1 = [] \<and>
            (\<exists>e. ap_data st1 = [(A, e)] \<and> essid e = ''Net'')"
    proof (cases s)
      case True
      with Cons.prems(3) obtain e where e: "ap_data st = [(A, e)]" "essid e = ''Net''" by auto
      then have m: "map_of (ap_data st) (addr2 p) = Some e" by (simp add: pa)
      obtain st1 where s1: "packet_handler p wl st = Inr st1"
        "ap_data st1 = AList.update (addr2 p) (e\<lparr>beacons := beacons e + 1\<rparr>) (ap_data st)"
        "alerts st1 = alerts st"
        using repeat_beacon_step [OF Cons.prems(1) ok m, of wl] wl by (auto simp: ss pa)
      have "wf_state st1" using Cons.prems(1) s1(1) by (rule wf_packet_handler)
      then show ?thesis using s1 e Cons.prems(2) by (simp add: pa)
    next
      case False
      with Cons.prems(3) have e: "ap_data st = []" by simp
      then have m: "map_of (ap_data st) (addr2 p) = None" by simp
      obtain st1 c where s1: "packet_handler p wl st = Inr st1"
        "ap_data st1 = ap_data st @ [(addr2 p, c)]" "essid c = beacon_ssid p"
        "alerts st1 = alerts st"
        using first_beacon_step [OF Cons.prems(1) ok m, of wl] wl by (auto simp: ss pa)
      have "wf_state st1" using Cons.prems(1) s1(1) by (rule wf_packet_handler)
      then show ?thesis using s1 e Cons.prems(2) by (simp add: pa ss)
    qed
    then obtain st1 where s1: "packet_handler p wl st = Inr st1" "wf_state st1"
      "alerts st1 = []" "\<exists>e. ap_data st1 = [(A, e)] \<and> essid e = ''Net''" by blast
    have "if True then (\<exists>e. ap_data st1 = [(A, e)] \<and> essid e = ''Net'') else ap_data st1 = []"
      using s1(4) by simp
    from Cons.IH [OF s1(2) s1(3) this rest] obtain st' where
      "process_frames wl pkts st1 = Inr st'"
      "alert_log st' =
         (if B \<notin> addr2 ` set pkts then [] else [(B, ''Evil Twin Detected'')])"
      by auto
    then show ?thesis using s1(1) pa ne by auto
  next
    case True
    have m: "map_of (ap_data st) (addr2 p) = None"
      using Cons.prems(3) True ne by (cases s) auto
    have tw: "twin_known st ''Net'' B = s"
      using Cons.prems(3) ne by (cases s) (auto simp: twin_known_def)
    obtain st1 c where s1: "packet_handler p wl st = Inr st1" "bssid c = B"
      "alerts st1 = [\<lparr>snap = c, alert_type =
          (if s then ''Evil Twin Detected'' else ''Not Whitelisted'')\<rparr>]"
      using first_beacon_step [OF Cons.prems(1) ok m, of wl] nwl Cons.prems(2) tw
      by (auto simp: ss True has_alert_def)
    have wf1: "wf_state st1" using Cons.prems(1) s1(1) by (rule wf_packet_handler)
    have "alert_log st1 = [(B, if s then ''Evil Twin Detected'' else ''Not Whitelisted'')]"
      by (simp add: alert_log_def s1)
    from after_first_alert [OF wl wf1 this rest] obtain st' where
      "process_frames wl pkts st1 = Inr st'"
      "alert_log st' = [(B, if s then ''Evil Twin Detected'' else ''Not Whitelisted'')]"
      by blast
    then show ?thesis using s1(1) True by simp
  qed
qed

subsection \<open>Example runs\<close>

lemmas run_defs =
  packet_handler_def py_index_def update_ap_data_def new_list_def opt_list_def append_new_def
  list_append_def check_alerts_def add_alert_def has_alert_def max_bit_rate_def
  rsn_security_def init_state_def beacon_def data_frame_def Let_def

lemma reach_state_A:
  "process_frames [] [beacon ''A'' ''Net'' (- 45) 1] init_state = Inr state_A"
  by (simp add: run_defs state_A_def entry_A_def)


section \<open>Properties of the decoder\<close>

text \<open>
  C6: parse\_rsn returns a result on every byte sequence: where the body of the
  \<open>try\<close> raises, the result is the empty dictionary. Every element that is truncated at one
  of the reads the decoder needs, or whose version is not 1, gives the empty dictionary;
  every other element gives the full dictionary with enc WPA2, never a part of it.
\<close>

theorem parse_rsn_empty_on_failure:
  "(\<forall>e. parse_rsn_try bs = Inl e \<longrightarrow> parse_rsn bs = RsnEmpty) \<and>
   (rsn_truncated bs \<or> le16 bs 0 \<noteq> 1 \<longrightarrow> parse_rsn bs = RsnEmpty) \<and>
   (\<not> rsn_truncated bs \<and> le16 bs 0 = 1 \<longrightarrow>
      (\<exists>ci au cap req. parse_rsn bs = RsnInfo ''WPA2'' ci au cap req))"
proof (intro conjI)
  show "\<forall>e. parse_rsn_try bs = Inl e \<longrightarrow> parse_rsn bs = RsnEmpty"
    by (simp add: parse_rsn_def)
  show "rsn_truncated bs \<or> le16 bs 0 \<noteq> 1 \<longrightarrow> parse_rsn bs = RsnEmpty"
    by (simp add: parse_rsn_eq)
  show "\<not> rsn_truncated bs \<and> le16 bs 0 = 1 \<longrightarrow>
      (\<exists>ci au cap req. parse_rsn bs = RsnInfo ''WPA2'' ci au cap req)"
    by (simp add: parse_rsn_eq)
qed

theorem parse_rsn_empty_on_failure_witness:
  "parse_rsn_try [1, 0, 0, 15, 172, 4, 1] = Inl StructError \<and>
   rsn_truncated [1, 0, 0, 15, 172, 4, 1] \<and>
   parse_rsn [1, 0, 0, 15, 172, 4, 1] = RsnEmpty \<and>
   le16 [2, 0, 0, 15, 172, 4, 1, 0, 0, 15, 172, 4, 1, 0, 0, 15, 172, 2] 0 \<noteq> 1 \<and>
   parse_rsn [2, 0, 0, 15, 172, 4, 1, 0, 0, 15, 172, 4, 1, 0, 0, 15, 172, 2] = RsnEmpty \<and>
   \<not> rsn_truncated rsn_example \<and> le16 rsn_example 0 = 1 \<and>
   (\<exists>ci au cap req. parse_rsn rsn_example = RsnInfo ''WPA2'' ci au cap req)"
proof -
  have t: "parse_rsn_try [1, 0, 0, 15, 172, 4, 1] = Inl StructError"
    by (simp add: parse_rsn_try_eq le16_def)
  have tr: "rsn_truncated [1, 0, 0, 15, 172, 4, 1]" by (simp add: rsn_truncated_def)
  have v: "le16 [2, 0, 0, 15, 172, 4, 1, 0, 0, 15, 172, 4, 1, 0, 0, 15, 172, 2] 0 \<noteq> 1"
    by (simp add: le16_def)
  have ok: "\<not> rsn_truncated rsn_example \<and> le16 rsn_example 0 = 1"
    by (simp add: rsn_truncated_def rsn_example_def le16_def rsn_akm_offset_def
        rsn_pairwise_count_def)
  show ?thesis
    using t tr v ok
      parse_rsn_empty_on_failure [of "[1, 0, 0, 15, 172, 4, 1]"]
      parse_rsn_empty_on_failure [of "[2, 0, 0, 15, 172, 4, 1, 0, 0, 15, 172, 4, 1, 0, 0, 15, 172, 2]"]
      parse_rsn_empty_on_failure [of rsn_example]
    by blast
qed

text \<open>
  C5: for an element of version 1 that is long enough at every read, whose first pairwise
  suite has 4 as its fourth byte (byte 11) and whose first AKM suite has 2 as its fourth
  byte (byte 8 + 4 P + 5), the decoder gives enc WPA2, cipher CCMP and auth PSK, and the
  handler's pmf is read from the two bytes at 8 + 4 P + 2 + 4 A when they are there:
  Required with bit 0x0080, else Capable with bit 0x0040, else No; No without them.
\<close>

theorem parse_rsn_wpa2_ccmp_psk:
  assumes "le16 bs 0 = 1" and "\<not> rsn_truncated bs"
    and "bs ! 11 = 4" and "bs ! (rsn_akm_offset bs + 5) = 2"
  shows "parse_rsn bs =
           RsnInfo ''WPA2'' ''CCMP'' ''PSK''
             (rsn_cap_offset bs + 2 \<le> length bs \<and> le16 bs (rsn_cap_offset bs) AND 0x0040 \<noteq> 0)
             (rsn_cap_offset bs + 2 \<le> length bs \<and> le16 bs (rsn_cap_offset bs) AND 0x0080 \<noteq> 0) \<and>
         rsn_security (Some bs) =
           (''WPA2'', ''CCMP'', ''PSK'',
            if rsn_cap_offset bs + 2 \<le> length bs
            then (if le16 bs (rsn_cap_offset bs) AND 0x0080 \<noteq> 0 then ''Required''
                  else if le16 bs (rsn_cap_offset bs) AND 0x0040 \<noteq> 0 then ''Capable''
                  else ''No'')
            else ''No'')"
proof -
  have p: "parse_rsn bs =
           RsnInfo ''WPA2'' ''CCMP'' ''PSK''
             (rsn_cap_offset bs + 2 \<le> length bs \<and> le16 bs (rsn_cap_offset bs) AND 0x0040 \<noteq> 0)
             (rsn_cap_offset bs + 2 \<le> length bs \<and> le16 bs (rsn_cap_offset bs) AND 0x0080 \<noteq> 0)"
    using assms by (simp add: parse_rsn_eq dict_get_def cipher_map_def akm_map_def)
  have "bs \<noteq> []" using assms(2) by (auto simp: rsn_truncated_def)
  then show ?thesis by (simp add: p rsn_security_def)
qed

theorem parse_rsn_wpa2_ccmp_psk_witness:
  "le16 rsn_example 0 = 1 \<and> \<not> rsn_truncated rsn_example \<and> rsn_example ! 11 = 4 \<and>
   rsn_example ! (rsn_akm_offset rsn_example + 5) = 2 \<and>
   rsn_cap_offset rsn_example = 18 \<and> length rsn_example = 20 \<and>
   rsn_security (Some rsn_example) = (''WPA2'', ''CCMP'', ''PSK'', ''Required'')"
proof -
  have h: "le16 rsn_example 0 = 1" "\<not> rsn_truncated rsn_example" "rsn_example ! 11 = 4"
    "rsn_example ! (rsn_akm_offset rsn_example + 5) = 2"
    by (simp_all add: rsn_truncated_def rsn_example_def le16_def rsn_akm_offset_def
        rsn_pairwise_count_def)
  have c: "rsn_cap_offset rsn_example = 18" "length rsn_example = 20"
    "le16 rsn_example 18 = 128"
    by (simp_all add: rsn_example_def le16_def rsn_akm_offset_def rsn_cap_offset_def
        rsn_pairwise_count_def)
  show ?thesis
    using parse_rsn_wpa2_ccmp_psk [OF h] h c by simp
qed

section \<open>Properties of the registry\<close>

text \<open>
  C9: a data frame adds one to the data count of the entry of its BSSID when the registry
  has one, and changes nothing else: no key is added, the alerts and the lists stay. For
  a BSSID without an entry the handler returns the state as it was, without raising.
\<close>

theorem data_frame_counts_known_only:
  assumes "\<not> has_Dot11Beacon pkt" and "has_Dot11 pkt" and "dot11_type pkt = 2"
  shows "(map_of (ap_data st) (addr3 pkt) = None \<longrightarrow> packet_handler pkt wl st = Inr st) \<and>
         (\<forall>r. map_of (ap_data st) (addr3 pkt) = Some r \<longrightarrow>
            (\<exists>st'. packet_handler pkt wl st = Inr st' \<and>
               map_of (ap_data st') = (map_of (ap_data st))(addr3 pkt \<mapsto> r\<lparr>data := data r + 1\<rparr>) \<and>
               map fst (ap_data st') = map fst (ap_data st) \<and>
               alerts st' = alerts st \<and> store st' = store st \<and> next_ref st' = next_ref st))"
  using assms by (simp add: handler_data_frame update_conv' update_keys)

theorem data_frame_counts_known_only_witness:
  "\<not> has_Dot11Beacon (data_frame ''Z'') \<and> has_Dot11 (data_frame ''Z'') \<and>
   dot11_type (data_frame ''Z'') = 2 \<and> map_of (ap_data state_A) ''Z'' = None \<and>
   packet_handler (data_frame ''Z'') [] state_A = Inr state_A \<and>
   map_of (ap_data state_A) ''A'' = Some entry_A \<and>
   (\<exists>st'. packet_handler (data_frame ''A'') [] state_A = Inr st' \<and>
      map_of (ap_data st') ''A'' = Some (entry_A\<lparr>data := 1\<rparr>) \<and>
      map fst (ap_data st') = [''A''] \<and> alerts st' = alerts state_A)"
proof -
  have z: "\<not> has_Dot11Beacon (data_frame ''Z'')" "has_Dot11 (data_frame ''Z'')"
    "dot11_type (data_frame ''Z'') = 2" by (simp_all add: data_frame_def)
  have a: "\<not> has_Dot11Beacon (data_frame ''A'')" "has_Dot11 (data_frame ''A'')"
    "dot11_type (data_frame ''A'') = 2" by (simp_all add: data_frame_def)
  have m: "map_of (ap_data state_A) ''Z'' = None" "map_of (ap_data state_A) ''A'' = Some entry_A"
    "addr3 (data_frame ''Z'') = ''Z''" "addr3 (data_frame ''A'') = ''A''"
    "data entry_A = 0" "map fst (ap_data state_A) = [''A'']"
    by (simp_all add: state_A_def data_frame_def entry_A_def)
  show ?thesis
    using data_frame_counts_known_only [OF z, of state_A "[]"]
      data_frame_counts_known_only [OF a, of state_A "[]"] z m
    by auto
qed



section \<open>Properties of the alerts\<close>



text \<open>
  C1: in every state reached from the initial one no two alerts have the same BSSID;
  whatever frames follow, under whatever whitelist, the alerts already there stay as they
  are and every alert added is for a BSSID that had none. A beacon that the handler gets
  through (it carries a DS Parameter Set and none that is empty) and that is not
  whitelisted, not hidden, shares its essid with another BSSID of the registry and has no
  alert yet gets the alert Evil Twin Detected, and only that one.
\<close>

theorem one_alert_per_bssid:
  assumes "process_frames wl0 pkts init_state = Inr st"
  shows "distinct (map (\<lambda>a. bssid (snap a)) (alerts st)) \<and>
    (\<forall>wl more st2. process_frames wl more st = Inr st2 \<longrightarrow>
       (\<exists>new. alerts st2 = alerts st @ new \<and>
          (\<forall>a \<in> set new. \<not> has_alert (alerts st) (bssid (snap a))))) \<and>
    (\<forall>pkt wl. beacon_ok pkt \<and> \<not> whitelisted wl (beacon_ssid pkt) (addr2 pkt) \<and>
        beacon_ssid pkt \<noteq> ''<Hidden>'' \<and> twin_known st (beacon_ssid pkt) (addr2 pkt) \<and>
        \<not> has_alert (alerts st) (addr2 pkt) \<longrightarrow>
       (\<exists>st' cur. packet_handler pkt wl st = Inr st' \<and> bssid cur = addr2 pkt \<and>
          alerts st' = alerts st @ [\<lparr>snap = cur, alert_type = ''Evil Twin Detected''\<rparr>]))"
proof (intro conjI allI impI)
  have wf: "wf_state st" using assms by (rule wf_reached)
  then show "distinct (map (\<lambda>a. bssid (snap a)) (alerts st))" by (simp add: wf_state_def)
  show "\<exists>new. alerts st2 = alerts st @ new \<and>
          (\<forall>a \<in> set new. \<not> has_alert (alerts st) (bssid (snap a)))"
    if "process_frames wl more st = Inr st2" for wl more st2
    using wf that by (rule alerts_run)
  show "\<exists>st' cur. packet_handler pkt wl st = Inr st' \<and> bssid cur = addr2 pkt \<and>
          alerts st' = alerts st @ [\<lparr>snap = cur, alert_type = ''Evil Twin Detected''\<rparr>]"
    if c: "beacon_ok pkt \<and> \<not> whitelisted wl (beacon_ssid pkt) (addr2 pkt) \<and>
        beacon_ssid pkt \<noteq> ''<Hidden>'' \<and> twin_known st (beacon_ssid pkt) (addr2 pkt) \<and>
        \<not> has_alert (alerts st) (addr2 pkt)" for pkt wl
  proof -
    have named: "\<forall>kd \<in> set (ap_data st). bssid (snd kd) = fst kd"
      using wf by (simp add: wf_state_def)
    from c have ok: "beacon_ok pkt" by simp
    from beacon_step [OF ok named, of wl] c show ?thesis by auto
  qed
qed

theorem one_alert_per_bssid_witness:
  "process_frames [] [beacon ''A'' ''Net'' (- 45) 1] init_state = Inr state_A \<and>
   distinct (map (\<lambda>a. bssid (snap a)) (alerts state_A)) \<and>
   (\<exists>st2. process_frames [''Net,B''] [beacon ''A'' ''Other'' (- 47) 1] state_A = Inr st2 \<and>
          alerts st2 = alerts state_A) \<and>
   beacon_ok (beacon ''B'' ''Net'' (- 50) 1) \<and> \<not> whitelisted [] ''Net'' ''B'' \<and>
   twin_known state_A ''Net'' ''B'' \<and> \<not> has_alert (alerts state_A) ''B'' \<and>
   (\<exists>st' cur. packet_handler (beacon ''B'' ''Net'' (- 50) 1) [] state_A = Inr st' \<and>
      bssid cur = ''B'' \<and>
      alerts st' = alerts state_A @ [\<lparr>snap = cur, alert_type = ''Evil Twin Detected''\<rparr>])"
proof -
  have v: "beacon_ok (beacon ''B'' ''Net'' (- 50) 1)" "\<not> whitelisted [] ''Net'' ''B''"
    "twin_known state_A ''Net'' ''B''" "\<not> has_alert (alerts state_A) ''B''"
    by (simp_all add: beacon_ok_def beacon_def twin_known_def state_A_def entry_A_def
        has_alert_def)
  have w: "beacon_ssid (beacon ''B'' ''Net'' (- 50) 1) = ''Net''"
    "addr2 (beacon ''B'' ''Net'' (- 50) 1) = ''B''"
    by (simp_all add: beacon_def beacon_ssid_def)
  have ok: "beacon_ok (beacon ''A'' ''Other'' (- 47) 1)"
    by (simp add: beacon_ok_def beacon_def)
  have m: "map_of (ap_data state_A) (addr2 (beacon ''A'' ''Other'' (- 47) 1)) = Some entry_A"
    by (simp add: state_A_def beacon_def)
  have wfA: "wf_state state_A" using reach_state_A by (rule wf_reached)
  obtain st2 where h: "packet_handler (beacon ''A'' ''Other'' (- 47) 1) [''Net,B''] state_A = Inr st2"
    using repeat_beacon_step [OF wfA ok m, of "[''Net,B'']"] by blast
  then have r: "process_frames [''Net,B''] [beacon ''A'' ''Other'' (- 47) 1] state_A = Inr st2"
    by simp
  have al: "has_alert (alerts state_A) ''A''" "bssid entry_A = ''A''"
    "alerts state_A = [\<lparr>snap = entry_A, alert_type = ''Not Whitelisted''\<rparr>]"
    by (simp_all add: has_alert_def state_A_def entry_A_def)
  note t = one_alert_per_bssid [OF reach_state_A]
  note t2 = t [THEN conjunct2, THEN conjunct1, rule_format, OF r]
  note t3 = t [THEN conjunct2, THEN conjunct2, rule_format,
      of "beacon ''B'' ''Net'' (- 50) 1" "[]"]
  obtain new where new: "alerts st2 = alerts state_A @ new"
    "\<forall>a \<in> set new. \<not> has_alert (alerts state_A) (bssid (snap a))"
    using t2 by blast
  have "distinct (map (\<lambda>a. bssid (snap a)) (alerts st2))"
    using wf_packet_handler [OF wfA h] by (simp add: wf_state_def)
  moreover have "\<forall>a \<in> set new. bssid (snap a) = ''A''"
    using alerts_step [OF wfA h] new(1) by (auto simp: beacon_def)
  ultimately have "new = []" using new al by (cases new) auto
  with new(1) have same: "alerts st2 = alerts state_A" by simp
  have e1: "\<exists>st2. process_frames [''Net,B''] [beacon ''A'' ''Other'' (- 47) 1] state_A = Inr st2 \<and>
          alerts st2 = alerts state_A"
    using r same by blast
  have e2: "\<exists>st' cur. packet_handler (beacon ''B'' ''Net'' (- 50) 1) [] state_A = Inr st' \<and>
      bssid cur = ''B'' \<and>
      alerts st' = alerts state_A @ [\<lparr>snap = cur, alert_type = ''Evil Twin Detected''\<rparr>]"
    using t3 v by (simp add: w)
  have d: "distinct (map (\<lambda>a. bssid (snap a)) (alerts state_A))" using t by simp
  show ?thesis using reach_state_A d e1 v e2 by (intro conjI)
qed

section \<open>Properties that the code does not have as stated\<close>

text \<open>
  C2, as stated, fails: a beacon whose RSN element has the unsupported version 2 does not
  decode, and the entry created for it has enc WPA2, cipher CCMP and auth PSK, not the
  defaults of an open network.
\<close>

theorem failed_rsn_counterexample:
  "parse_rsn [2, 0] = RsnEmpty \<and>
   beacon_rsn_ie (beacon_rsn ''A'' ''Net'' (- 45) 1 [2, 0]) = Some [2, 0] \<and>
   (case process_frames [] [beacon_rsn ''A'' ''Net'' (- 45) 1 [2, 0]] init_state of
      Inl e \<Rightarrow> [] | Inr st \<Rightarrow> security_log st) = [(''A'', ''WPA2'', ''CCMP'', ''PSK'', ''No'')]"
  by (simp add: run_defs beacon_rsn_def beacon_rsn_ie_def security_log_def parse_rsn_eq
      rsn_truncated_def)

text \<open>
  C2, amended: in every state reached from the initial one, the first beacon of a BSSID
  that the handler gets through (it carries a DS Parameter Set and none that is empty)
  creates an entry whose security fields are WPA2, CCMP, PSK and No when the beacon
  carries a non-empty RSN element that does not decode. The fields are OPN, empty, empty
  and No exactly when the beacon carries no RSN element or an empty one: with any
  non-empty RSN element, decoded or not, enc is WPA2.
\<close>

theorem failed_rsn_defaults_to_wpa2:
  assumes "process_frames wl0 pkts init_state = Inr st" and "beacon_ok pkt"
    and "map_of (ap_data st) (addr2 pkt) = None"
  shows "\<exists>st' r. packet_handler pkt wl st = Inr st' \<and>
     map_of (ap_data st') (addr2 pkt) = Some r \<and>
     (\<forall>ie. beacon_rsn_ie pkt = Some ie \<and> ie \<noteq> [] \<and> parse_rsn ie = RsnEmpty \<longrightarrow>
        (enc r, cipher r, auth r, pmf r) = (''WPA2'', ''CCMP'', ''PSK'', ''No'')) \<and>
     (\<forall>ie. beacon_rsn_ie pkt = Some ie \<and> ie \<noteq> [] \<longrightarrow> enc r = ''WPA2'') \<and>
     ((enc r, cipher r, auth r, pmf r) = (''OPN'', [], [], ''No'') \<longleftrightarrow>
        beacon_rsn_ie pkt = None \<or> beacon_rsn_ie pkt = Some [])"
proof -
  have wf: "wf_state st" using assms(1) by (rule wf_reached)
  obtain st' cur where s: "packet_handler pkt wl st = Inr st'"
    "ap_data st' = ap_data st @ [(addr2 pkt, cur)]"
    "(enc cur, cipher cur, auth cur, pmf cur) = rsn_security (beacon_rsn_ie pkt)"
    using first_beacon_step [OF wf assms(2) assms(3), of wl] by blast
  have m: "map_of (ap_data st') (addr2 pkt) = Some cur"
    using assms(3) by (simp add: s(2) map_add_def)
  have f: "\<forall>ie. beacon_rsn_ie pkt = Some ie \<and> ie \<noteq> [] \<and> parse_rsn ie = RsnEmpty \<longrightarrow>
        (enc cur, cipher cur, auth cur, pmf cur) = (''WPA2'', ''CCMP'', ''PSK'', ''No'')"
    unfolding s(3) by (simp add: rsn_security_def)
  have e: "enc cur = fst (rsn_security (beacon_rsn_ie pkt))"
    using s(3) by (metis fst_conv)
  have w: "\<forall>ie. beacon_rsn_ie pkt = Some ie \<and> ie \<noteq> [] \<longrightarrow> enc cur = ''WPA2''"
    by (simp add: e rsn_security_wpa2)
  have o: "beacon_rsn_ie pkt = None \<or> beacon_rsn_ie pkt = Some [] \<Longrightarrow>
        (enc cur, cipher cur, auth cur, pmf cur) = (''OPN'', [], [], ''No'')"
    unfolding s(3) by (auto simp: rsn_security_def)
  have o': "beacon_rsn_ie pkt = None \<or> beacon_rsn_ie pkt = Some []"
    if "(enc cur, cipher cur, auth cur, pmf cur) = (''OPN'', [], [], ''No'')"
  proof (cases "beacon_rsn_ie pkt")
    case None
    then show ?thesis by simp
  next
    case (Some ie)
    have "ie = []"
    proof (rule ccontr)
      assume "ie \<noteq> []"
      with w Some have "enc cur = ''WPA2''" by simp
      with that show False by simp
    qed
    with Some show ?thesis by simp
  qed
  have i: "(enc cur, cipher cur, auth cur, pmf cur) = (''OPN'', [], [], ''No'') \<longleftrightarrow>
        beacon_rsn_ie pkt = None \<or> beacon_rsn_ie pkt = Some []"
    using o o' by blast
  show ?thesis using s(1) m f w i by (intro exI [of _ st'] exI [of _ cur] conjI)
qed

theorem failed_rsn_defaults_to_wpa2_witness:
  "process_frames [] [] init_state = Inr init_state \<and>
   beacon_ok (beacon_rsn ''A'' ''Net'' (- 45) 1 [2, 0]) \<and>
   beacon_ok (beacon ''B'' ''Net'' (- 45) 1) \<and>
   map_of (ap_data init_state) ''A'' = None \<and>
   beacon_rsn_ie (beacon_rsn ''A'' ''Net'' (- 45) 1 [2, 0]) = Some [2, 0] \<and>
   parse_rsn [2, 0] = RsnEmpty \<and>
   beacon_rsn_ie (beacon ''B'' ''Net'' (- 45) 1) = None \<and>
   (\<exists>st' r. packet_handler (beacon_rsn ''A'' ''Net'' (- 45) 1 [2, 0]) [] init_state = Inr st' \<and>
      map_of (ap_data st') ''A'' = Some r \<and>
      (enc r, cipher r, auth r, pmf r) = (''WPA2'', ''CCMP'', ''PSK'', ''No'')) \<and>
   (\<exists>st' r. packet_handler (beacon ''B'' ''Net'' (- 45) 1) [] init_state = Inr st' \<and>
      map_of (ap_data st') ''B'' = Some r \<and>
      (enc r, cipher r, auth r, pmf r) = (''OPN'', [], [], ''No''))"
proof -
  have r0: "process_frames [] [] init_state = Inr init_state" by simp
  have ok: "beacon_ok (beacon_rsn ''A'' ''Net'' (- 45) 1 [2, 0])"
    "beacon_ok (beacon ''B'' ''Net'' (- 45) 1)"
    by (simp_all add: beacon_ok_def beacon_rsn_def beacon_def)
  have m: "map_of (ap_data init_state) (addr2 (beacon_rsn ''A'' ''Net'' (- 45) 1 [2, 0])) = None"
    "map_of (ap_data init_state) (addr2 (beacon ''B'' ''Net'' (- 45) 1)) = None"
    "map_of (ap_data init_state) ''A'' = None"
    by (simp_all add: init_state_def)
  have v: "beacon_rsn_ie (beacon_rsn ''A'' ''Net'' (- 45) 1 [2, 0]) = Some [2, 0]"
    "parse_rsn [2, 0] = RsnEmpty" "beacon_rsn_ie (beacon ''B'' ''Net'' (- 45) 1) = None"
    "addr2 (beacon_rsn ''A'' ''Net'' (- 45) 1 [2, 0]) = ''A''"
    "addr2 (beacon ''B'' ''Net'' (- 45) 1) = ''B''"
    by (simp_all add: beacon_rsn_ie_def beacon_rsn_def beacon_def parse_rsn_eq rsn_truncated_def)
  have e1: "\<exists>st' r. packet_handler (beacon_rsn ''A'' ''Net'' (- 45) 1 [2, 0]) [] init_state = Inr st' \<and>
      map_of (ap_data st') ''A'' = Some r \<and>
      (enc r, cipher r, auth r, pmf r) = (''WPA2'', ''CCMP'', ''PSK'', ''No'')"
    using failed_rsn_defaults_to_wpa2 [OF r0 ok(1) m(1), of "[]"] by (auto simp: v)
  have e2: "\<exists>st' r. packet_handler (beacon ''B'' ''Net'' (- 45) 1) [] init_state = Inr st' \<and>
      map_of (ap_data st') ''B'' = Some r \<and>
      (enc r, cipher r, auth r, pmf r) = (''OPN'', [], [], ''No'')"
    using failed_rsn_defaults_to_wpa2 [OF r0 ok(2) m(2), of "[]"] by (auto simp: v)
  show ?thesis using r0 ok m(3) v(1-3) e1 e2 by (intro conjI)
qed

text \<open>
  C3, as stated, fails: after the beacons of A and of B under an empty whitelist the list
  has two alerts, and the first is for A.
\<close>

theorem two_beacons_counterexample:
  "run_alert_log [] [beacon ''A'' ''Net'' (- 45) 1, beacon ''B'' ''Net'' (- 50) 1] =
     Inr [(''A'', ''Not Whitelisted''), (''B'', ''Evil Twin Detected'')]"
  by (simp add: run_defs run_alert_log_def alert_log_def twin_known_def)

text \<open>
  C3, amended: two beacons with the name Net from distinct BSSIDs A and then B, neither
  whitelisted, each with a DS Parameter Set and none that is empty, processed from the
  initial state, leave exactly two alerts: Not
  Whitelisted for A, then Evil Twin Detected for B. B gets the only evil-twin alert.
\<close>

theorem two_beacons_same_essid:
  assumes "beacon_ok pA" and "beacon_ok pB" and "addr2 pA \<noteq> addr2 pB"
    and "raw_ssid pA = ''Net''" and "raw_ssid pB = ''Net''"
    and "\<not> whitelisted wl ''Net'' (addr2 pA)" and "\<not> whitelisted wl ''Net'' (addr2 pB)"
  shows "run_alert_log wl [pA, pB] =
           Inr [(addr2 pA, ''Not Whitelisted''), (addr2 pB, ''Evil Twin Detected'')]"
proof -
  have sA: "beacon_ssid pA = ''Net''" and sB: "beacon_ssid pB = ''Net''"
    using assms(4,5) by (simp_all add: beacon_ssid_def)
  have e0: "map_of (ap_data init_state) (addr2 pA) = None" "alerts init_state = []"
    "\<not> twin_known init_state ''Net'' (addr2 pA)"
    by (simp_all add: init_state_def twin_known_def)
  obtain st1 c1 where s1: "packet_handler pA wl init_state = Inr st1"
    "ap_data st1 = [(addr2 pA, c1)]" "bssid c1 = addr2 pA" "essid c1 = ''Net''"
    "alerts st1 = [\<lparr>snap = c1, alert_type = ''Not Whitelisted''\<rparr>]"
    using first_beacon_step [OF wf_init assms(1) e0(1), of wl] assms(6) e0
    by (auto simp: sA has_alert_def init_state_def)
  have wf1: "wf_state st1" using wf_init s1(1) by (rule wf_packet_handler)
  have e1: "map_of (ap_data st1) (addr2 pB) = None" "\<not> has_alert (alerts st1) (addr2 pB)"
    "twin_known st1 ''Net'' (addr2 pB)"
    using assms(3) by (simp_all add: s1 has_alert_def twin_known_def)
  obtain st2 c2 where s2: "packet_handler pB wl st1 = Inr st2" "bssid c2 = addr2 pB"
    "alerts st2 = alerts st1 @ [\<lparr>snap = c2, alert_type = ''Evil Twin Detected''\<rparr>]"
    using first_beacon_step [OF wf1 assms(2) e1(1), of wl] assms(7) e1
    by (auto simp: sB)
  have "process_frames wl [pA, pB] init_state = Inr st2" by (simp add: s1(1) s2(1))
  then show ?thesis
    by (simp add: run_alert_log_def alert_log_def s2 s1)
qed

theorem two_beacons_same_essid_witness:
  "beacon_ok (beacon ''A'' ''Net'' (- 45) 1) \<and> beacon_ok (beacon ''B'' ''Net'' (- 50) 6) \<and>
   addr2 (beacon ''A'' ''Net'' (- 45) 1) \<noteq> addr2 (beacon ''B'' ''Net'' (- 50) 6) \<and>
   raw_ssid (beacon ''A'' ''Net'' (- 45) 1) = ''Net'' \<and>
   raw_ssid (beacon ''B'' ''Net'' (- 50) 6) = ''Net'' \<and>
   \<not> whitelisted [''Net,C''] ''Net'' ''A'' \<and> \<not> whitelisted [''Net,C''] ''Net'' ''B'' \<and>
   run_alert_log [''Net,C''] [beacon ''A'' ''Net'' (- 45) 1, beacon ''B'' ''Net'' (- 50) 6] =
     Inr [(''A'', ''Not Whitelisted''), (''B'', ''Evil Twin Detected'')]"
proof -
  have h: "beacon_ok (beacon ''A'' ''Net'' (- 45) 1)" "beacon_ok (beacon ''B'' ''Net'' (- 50) 6)"
    "addr2 (beacon ''A'' ''Net'' (- 45) 1) \<noteq> addr2 (beacon ''B'' ''Net'' (- 50) 6)"
    "raw_ssid (beacon ''A'' ''Net'' (- 45) 1) = ''Net''"
    "raw_ssid (beacon ''B'' ''Net'' (- 50) 6) = ''Net''"
    "\<not> whitelisted [''Net,C''] ''Net'' (addr2 (beacon ''A'' ''Net'' (- 45) 1))"
    "\<not> whitelisted [''Net,C''] ''Net'' (addr2 (beacon ''B'' ''Net'' (- 50) 6))"
    by (simp_all add: beacon_ok_def beacon_def)
  have a: "addr2 (beacon ''A'' ''Net'' (- 45) 1) = ''A''"
    "addr2 (beacon ''B'' ''Net'' (- 50) 6) = ''B''"
    by (simp_all add: beacon_def)
  show ?thesis
    using two_beacons_same_essid [OF h] h by (simp add: a)
qed

text \<open>
  C4, as stated, fails: with A whitelisted as the pair Net and A, a beacon of B that comes
  before any beacon of A finds no other BSSID with its essid, and B's one alert is Not
  Whitelisted, not Evil Twin Detected.
\<close>

theorem whitelisted_and_foreign_counterexample:
  "whitelisted [''Net,A''] ''Net'' ''A'' \<and> \<not> whitelisted [''Net,A''] ''Net'' ''B'' \<and>
   run_alert_log [''Net,A''] [beacon ''B'' ''Net'' (- 50) 6, beacon ''A'' ''Net'' (- 45) 1] =
     Inr [(''B'', ''Not Whitelisted'')]"
  by (simp add: run_defs run_alert_log_def alert_log_def twin_known_def)

text \<open>
  C4, amended: with A whitelisted as the pair Net and A, and B not whitelisted, every
  sequence of beacons of A and B with the name Net, each with a DS Parameter Set and none
  that is empty, processed from the initial state,
  leaves no alert for A and, once B has been seen, exactly one alert for B: Evil Twin
  Detected when a beacon of A came before the first beacon of B, Not Whitelisted
  otherwise. A pair is whitelisted only if the whitelist has the entry essid, comma,
  bssid.
\<close>

theorem whitelisted_and_foreign:
  assumes "whitelisted wl ''Net'' A" and "\<not> whitelisted wl ''Net'' B"
    and "\<forall>p \<in> set pkts. beacon_ok p \<and> (addr2 p = A \<or> addr2 p = B) \<and> raw_ssid p = ''Net''"
  shows "run_alert_log wl pkts =
           Inr (if B \<notin> addr2 ` set pkts then []
                else [(B, if A \<in> addr2 ` set (takeWhile (\<lambda>p. addr2 p \<noteq> B) pkts)
                          then ''Evil Twin Detected'' else ''Not Whitelisted'')]) \<and>
         (\<forall>e b. whitelisted wl e b \<longrightarrow> e @ CHR '','' # b \<in> set wl)"
proof
  have i: "alerts init_state = []"
    "if False then (\<exists>e. ap_data init_state = [(A, e)] \<and> essid e = ''Net'')
     else ap_data init_state = []"
    by (simp_all add: init_state_def)
  from before_first_alert [OF assms(1) assms(2) wf_init i assms(3)]
  show "run_alert_log wl pkts =
           Inr (if B \<notin> addr2 ` set pkts then []
                else [(B, if A \<in> addr2 ` set (takeWhile (\<lambda>p. addr2 p \<noteq> B) pkts)
                          then ''Evil Twin Detected'' else ''Not Whitelisted'')])"
    by (auto simp: run_alert_log_def)
  show "\<forall>e b. whitelisted wl e b \<longrightarrow> e @ CHR '','' # b \<in> set wl"
    by (simp add: whitelisted_entry)
qed

theorem whitelisted_and_foreign_witness:
  "whitelisted [''Net,A''] ''Net'' ''A'' \<and> \<not> whitelisted [''Net,A''] ''Net'' ''B'' \<and>
   beacon_ok (beacon ''A'' ''Net'' (- 45) 1) \<and> addr2 (beacon ''A'' ''Net'' (- 45) 1) = ''A'' \<and>
   raw_ssid (beacon ''A'' ''Net'' (- 45) 1) = ''Net'' \<and>
   beacon_ok (beacon ''B'' ''Net'' (- 50) 6) \<and> addr2 (beacon ''B'' ''Net'' (- 50) 6) = ''B'' \<and>
   raw_ssid (beacon ''B'' ''Net'' (- 50) 6) = ''Net'' \<and>
   beacon_ok (beacon ''A'' ''Net'' (- 46) 1) \<and> addr2 (beacon ''A'' ''Net'' (- 46) 1) = ''A'' \<and>
   raw_ssid (beacon ''A'' ''Net'' (- 46) 1) = ''Net'' \<and>
   run_alert_log [''Net,A'']
     [beacon ''A'' ''Net'' (- 45) 1, beacon ''B'' ''Net'' (- 50) 6, beacon ''A'' ''Net'' (- 46) 1] =
     Inr [(''B'', ''Evil Twin Detected'')] \<and>
   ''Net,A'' \<in> set [''Net,A'']"
proof -
  have h: "whitelisted [''Net,A''] ''Net'' ''A''" "\<not> whitelisted [''Net,A''] ''Net'' ''B''"
    "\<forall>p \<in> set [beacon ''A'' ''Net'' (- 45) 1, beacon ''B'' ''Net'' (- 50) 6,
                beacon ''A'' ''Net'' (- 46) 1].
      beacon_ok p \<and> (addr2 p = ''A'' \<or> addr2 p = ''B'') \<and> raw_ssid p = ''Net''"
    by (simp_all add: beacon_ok_def beacon_def)
  have a: "addr2 (beacon ''A'' ''Net'' (- 45) 1) = ''A''"
    "addr2 (beacon ''B'' ''Net'' (- 50) 6) = ''B''"
    "addr2 (beacon ''A'' ''Net'' (- 46) 1) = ''A''"
    by (simp_all add: beacon_def)
  have b: "beacon_ok (beacon ''A'' ''Net'' (- 45) 1)" "beacon_ok (beacon ''B'' ''Net'' (- 50) 6)"
    "beacon_ok (beacon ''A'' ''Net'' (- 46) 1)"
    "raw_ssid (beacon ''A'' ''Net'' (- 45) 1) = ''Net''"
    "raw_ssid (beacon ''B'' ''Net'' (- 50) 6) = ''Net''"
    "raw_ssid (beacon ''A'' ''Net'' (- 46) 1) = ''Net''"
    by (simp_all add: beacon_ok_def beacon_def)
  show ?thesis
    using whitelisted_and_foreign [OF h] h(1,2) b by (simp add: a)
qed

section \<open>A property that the code breaks\<close>

text \<open>
  C7: the alert is a shallow copy of the entry, so it shares the list objects under pwr and
  channel with the live entry. After the first beacon of A the alert for A shows the
  signals [-45] and the channels [1]; after a second beacon of A with signal -46 on
  channel 6 the same alert shows [-45, -46] and [1, 6]. The counts beacons and data of
  the alert stay as copied.
\<close>

theorem alert_shares_lists:
  "(case process_frames [] [beacon ''A'' ''Net'' (- 45) 1] init_state of
      Inl e \<Rightarrow> [] | Inr st \<Rightarrow> save_alert_data st) =
     [(\<lparr>f_essid = ''Net'', f_bssid = ''A'', f_pwr = [- 45], f_beacons = 1, f_data = 0,
        f_channel = [1], f_mb = N_A, f_enc = ''OPN'', f_cipher = [], f_auth = [],
        f_pmf = ''No''\<rparr>, ''Not Whitelisted'')] \<and>
   (case process_frames [] [beacon ''A'' ''Net'' (- 45) 1, beacon ''A'' ''Net'' (- 46) 6]
           init_state of
      Inl e \<Rightarrow> [] | Inr st \<Rightarrow> save_alert_data st) =
     [(\<lparr>f_essid = ''Net'', f_bssid = ''A'', f_pwr = [- 45, - 46], f_beacons = 1, f_data = 0,
        f_channel = [1, 6], f_mb = N_A, f_enc = ''OPN'', f_cipher = [], f_auth = [],
        f_pmf = ''No''\<rparr>, ''Not Whitelisted'')]"
  by (simp add: run_defs save_alert_data_def read_entry_def)

end
